theory Spec2Isabelle
  imports Complex_Main
begin

section \<open>Text: Python strings over the code points 0 to 255\<close>

text \<open>
  A Python \<open>str\<close> is a sequence of code points. The model takes the texts over the code
  points 0 to 255 (ASCII and the Latin-1 block, which holds every accented letter the
  source's patterns name): a \<open>char\<close> is one code point and \<open>length\<close> counts code points.
  The tables below are Python's \<open>str.isspace\<close>, \<open>str.isdecimal\<close>, \<open>str.isalnum\<close> and
  \<open>str.lower\<close> on that range.
\<close>

definition cp :: "char \<Rightarrow> nat" where
  "cp c = of_char c"

text \<open>\<open>\s\<close> of a \<open>str\<close> pattern, and the characters \<open>str.strip()\<close> removes.\<close>

definition is_space :: "char \<Rightarrow> bool" where
  "is_space c = (let n = cp c in (9 \<le> n \<and> n \<le> 13) \<or> (28 \<le> n \<and> n \<le> 32) \<or> n = 133 \<or> n = 160)"

text \<open>\<open>\d\<close> of a \<open>str\<close> pattern: the decimal digits; below 256 these are \<open>0\<close> to \<open>9\<close>.\<close>

definition is_digit :: "char \<Rightarrow> bool" where
  "is_digit c = (let n = cp c in 48 \<le> n \<and> n \<le> 57)"

text \<open>\<open>\w\<close> of a \<open>str\<close> pattern: alphanumeric (letters, digits, numeric signs) or underscore.\<close>

definition is_word :: "char \<Rightarrow> bool" where
  "is_word c = (let n = cp c in
     (48 \<le> n \<and> n \<le> 57) \<or> (65 \<le> n \<and> n \<le> 90) \<or> n = 95 \<or> (97 \<le> n \<and> n \<le> 122) \<or>
     n = 170 \<or> n = 178 \<or> n = 179 \<or> n = 181 \<or> n = 185 \<or> n = 186 \<or>
     (188 \<le> n \<and> n \<le> 190) \<or> (192 \<le> n \<and> n \<le> 214) \<or> (216 \<le> n \<and> n \<le> 246) \<or>
     (248 \<le> n \<and> n \<le> 255))"

text \<open>\<open>str.lower()\<close>, one code point at a time (on this range it keeps the length).\<close>

definition lower_char :: "char \<Rightarrow> char" where
  "lower_char c = (let n = cp c in
     if (65 \<le> n \<and> n \<le> 90) \<or> (192 \<le> n \<and> n \<le> 214) \<or> (216 \<le> n \<and> n \<le> 222)
     then char_of (n + 32) else c)"

definition lower :: "string \<Rightarrow> string" where
  "lower s = map lower_char s"

text \<open>
  The upper case of the first character in \<open>str.capitalize()\<close>. The source capitalizes only
  drug names of its list and matches of the letter class of its fallback pattern; the
  three code points whose upper case leaves the range (181, 223, 255) are left as they are.
\<close>

definition upper_char :: "char \<Rightarrow> char" where
  "upper_char c = (let n = cp c in
     if (97 \<le> n \<and> n \<le> 122) \<or> (224 \<le> n \<and> n \<le> 246) \<or> (248 \<le> n \<and> n \<le> 254)
     then char_of (n - 32) else c)"

fun capitalize :: "string \<Rightarrow> string" where
  "capitalize [] = []"
| "capitalize (c # cs) = upper_char c # lower cs"

text \<open>\<open>p in s\<close> for strings: \<open>p\<close> occurs in \<open>s\<close> as a contiguous substring.\<close>

fun starts_with :: "string \<Rightarrow> string \<Rightarrow> bool" where
  "starts_with s [] = True"
| "starts_with [] (p # ps) = False"
| "starts_with (c # cs) (p # ps) = (c = p \<and> starts_with cs ps)"

fun str_in :: "string \<Rightarrow> string \<Rightarrow> bool" where
  "str_in p [] = (p = [])"
| "str_in p (c # cs) = (starts_with (c # cs) p \<or> str_in p cs)"

text \<open>\<open>s.replace(a, b)\<close> for single characters \<open>a\<close> and \<open>b\<close>.\<close>

definition replace_char :: "char \<Rightarrow> char \<Rightarrow> string \<Rightarrow> string" where
  "replace_char a b s = map (\<lambda>c. if c = a then b else c) s"

text \<open>\<open>s.strip()\<close>: the white space at both ends is removed.\<close>

definition strip :: "string \<Rightarrow> string" where
  "strip s = rev (dropWhile is_space (rev (dropWhile is_space s)))"

section \<open>Regular expressions as Python's \<open>re\<close> module searches them\<close>

text \<open>
  The constructs the source's patterns use: a character test (a literal, a class, \<open>\d\<close>,
  \<open>\s\<close>), sequence, alternation, the greedy star (\<open>+\<close>, \<open>?\<close> and \<open>{4,}\<close> are built from
  it), capturing groups, the negative lookahead \<open>(?!...)\<close> and the word boundary \<open>\b\<close>.
\<close>

datatype regex =
    Eps
  | Chr "char \<Rightarrow> bool"
  | Seq regex regex
  | Alt regex regex
  | Star regex
  | Group nat regex
  | NegLook regex
  | WordB

text \<open>
  A matching state: the character before the current position (for \<open>\b\<close>), the text
  from the current position on, and what each group has captured so far.
\<close>

datatype mstate = MState (prev: "char option") (rest: string) (caps: "string option list")

definition set_cap :: "nat \<Rightarrow> string \<Rightarrow> mstate \<Rightarrow> mstate" where
  "set_cap i w st = MState (prev st) (rest st) ((caps st)[i := Some w])"

definition word_before :: "mstate \<Rightarrow> bool" where
  "word_before st = (case prev st of None \<Rightarrow> False | Some c \<Rightarrow> is_word c)"

definition word_after :: "mstate \<Rightarrow> bool" where
  "word_after st = (case rest st of [] \<Rightarrow> False | c # _ \<Rightarrow> is_word c)"

text \<open>
  The backtracking matcher returns the states after every way to match, in the order in
  which Python's engine tries them: the first element is the match Python reports. A
  greedy star tries one more iteration before it tries to stop; an iteration that
  consumes nothing is dropped (no starred expression of the source can match the empty
  string), so the length of the remaining text bounds the number of iterations.
\<close>

fun star_iter :: "(mstate \<Rightarrow> mstate list) \<Rightarrow> nat \<Rightarrow> mstate \<Rightarrow> mstate list" where
  "star_iter f 0 st = [st]"
| "star_iter f (Suc n) st =
     concat (map (\<lambda>st'. if length (rest st') < length (rest st) then star_iter f n st' else [])
                 (f st)) @ [st]"

primrec rmatch :: "regex \<Rightarrow> mstate \<Rightarrow> mstate list" where
  "rmatch Eps = (\<lambda>st. [st])"
| "rmatch (Chr P) = (\<lambda>st. case rest st of
       [] \<Rightarrow> []
     | c # cs \<Rightarrow> if P c then [MState (Some c) cs (caps st)] else [])"
| "rmatch (Seq r1 r2) = (\<lambda>st. concat (map (rmatch r2) (rmatch r1 st)))"
| "rmatch (Alt r1 r2) = (\<lambda>st. rmatch r1 st @ rmatch r2 st)"
| "rmatch (Star r) = (\<lambda>st. star_iter (rmatch r) (length (rest st)) st)"
| "rmatch (Group i r) = (\<lambda>st.
       map (\<lambda>st'. set_cap i (take (length (rest st) - length (rest st')) (rest st)) st')
           (rmatch r st))"
| "rmatch (NegLook r) = (\<lambda>st. if rmatch r st = [] then [st] else [])"
| "rmatch WordB = (\<lambda>st. if word_before st \<noteq> word_after st then [st] else [])"

text \<open>
  A match object: \<open>m.start()\<close>, the matched text, and \<open>m.groups()\<close> (\<open>None\<close> for a group
  that took no part in the match).
\<close>

record re_match =
  m_start :: nat
  m_text :: string
  m_groups :: "string option list"

text \<open>
  \<open>re.search\<close>: the leftmost position at which the pattern matches, the end position
  included. \<open>ng\<close> is the number of groups of the pattern.
\<close>

fun search_from :: "regex \<Rightarrow> nat \<Rightarrow> char option \<Rightarrow> string \<Rightarrow> nat \<Rightarrow> re_match option" where
  "search_from r ng p s i =
     (case rmatch r (MState p s (replicate ng None)) of
        st' # _ \<Rightarrow> Some \<lparr>m_start = i, m_text = take (length s - length (rest st')) s,
                          m_groups = caps st'\<rparr>
      | [] \<Rightarrow> (case s of [] \<Rightarrow> None | c # cs \<Rightarrow> search_from r ng (Some c) cs (Suc i)))"

definition re_search :: "regex \<Rightarrow> nat \<Rightarrow> string \<Rightarrow> re_match option" where
  "re_search r ng s = search_from r ng None s 0"

subsection \<open>Building patterns\<close>

definition Lit :: "char \<Rightarrow> regex" where
  "Lit c = Chr (\<lambda>x. x = c)"

text \<open>A literal under \<open>re.IGNORECASE\<close>; \<open>c\<close> is a lower-case letter.\<close>

definition LitI :: "char \<Rightarrow> regex" where
  "LitI c = Chr (\<lambda>x. lower_char x = c)"

definition OneOf :: "string \<Rightarrow> regex" where
  "OneOf cs = Chr (\<lambda>x. x \<in> set cs)"

fun Str :: "string \<Rightarrow> regex" where
  "Str [] = Eps"
| "Str (c # cs) = Seq (Lit c) (Str cs)"

fun StrI :: "string \<Rightarrow> regex" where
  "StrI [] = Eps"
| "StrI (c # cs) = Seq (LitI c) (StrI cs)"

fun Seqs :: "regex list \<Rightarrow> regex" where
  "Seqs [] = Eps"
| "Seqs (r # rs) = Seq r (Seqs rs)"

definition Plus :: "regex \<Rightarrow> regex" where
  "Plus r = Seq r (Star r)"

definition Opt :: "regex \<Rightarrow> regex" where
  "Opt r = Alt r Eps"

text \<open>\<open>\s*\<close>, \<open>\s+\<close>, \<open>\d+\<close> and the number \<open>\d+(?:[.,]\d+)?\<close> of every dose pattern.\<close>

definition ws :: regex where
  "ws = Star (Chr is_space)"

definition ws1 :: regex where
  "ws1 = Plus (Chr is_space)"

definition digits :: regex where
  "digits = Plus (Chr is_digit)"

definition numero :: regex where
  "numero = Seq digits (Opt (Seq (OneOf ''.,'') digits))"

section \<open>Numbers\<close>

text \<open>
  A Python \<open>float\<close> is modelled by the rational number it stands for: a decimal literal
  is read exactly and a product is exact, so the rounding of binary floating point (and
  its infinities, reached only by literals of several hundred digits) is left out. The
  program compares doses, tests them against zero and multiplies one dose by one weight.
\<close>

datatype py_error = ValueError | TypeError | AttributeError | IndexError

definition digit_val :: "char \<Rightarrow> nat" where
  "digit_val c = cp c - 48"

definition nat_of_digits :: "string \<Rightarrow> nat" where
  "nat_of_digits s = foldl (\<lambda>a c. 10 * a + digit_val c) 0 s"

text \<open>
  \<open>float(s)\<close> on the literals \<open>digits\<close> and \<open>digits.digits\<close>. \<open>None\<close> is every other
  string: Python raises \<open>ValueError\<close> on most of them and reads the rest (signs, exponents,
  \<open>inf\<close>) by rules the program never needs, since it only converts what a group of one of
  its patterns has captured.
\<close>

definition py_float :: "string \<Rightarrow> rat option" where
  "py_float s =
     (let ip = takeWhile is_digit s; r = dropWhile is_digit s in
      if ip = [] then None
      else case r of
          [] \<Rightarrow> Some (of_nat (nat_of_digits ip))
        | c # fp \<Rightarrow>
            if c = CHR ''.'' \<and> fp \<noteq> [] \<and> list_all is_digit fp
            then Some (of_nat (nat_of_digits ip) + of_nat (nat_of_digits fp) / 10 ^ length fp)
            else None)"

text \<open>\<open>int(s)\<close> on a string of digits.\<close>

definition py_int :: "string \<Rightarrow> nat option" where
  "py_int s = (if s \<noteq> [] \<and> list_all is_digit s then Some (nat_of_digits s) else None)"

text \<open>Truth value of a \<open>float\<close> or \<open>None\<close>: \<open>None\<close> and zero are false.\<close>

definition truthy :: "rat option \<Rightarrow> bool" where
  "truthy x = (case x of None \<Rightarrow> False | Some v \<Rightarrow> v \<noteq> 0)"

subsection \<open>Printing numbers\<close>

fun str_of_nat :: "nat \<Rightarrow> string" where
  "str_of_nat n =
     (if n < 10 then [char_of (48 + n)] else str_of_nat (n div 10) @ [char_of (48 + n mod 10)])"

text \<open>Rounding to the nearest integer, a tie going to the even one, as \<open>format\<close> does.\<close>

definition round_half_even :: "rat \<Rightarrow> int" where
  "round_half_even x =
     (let f = \<lfloor>x\<rfloor>; d = x - of_int f in
      if d < 1 / 2 then f else if 1 / 2 < d then f + 1 else if even f then f else f + 1)"

text \<open>\<open>f"{x:.0f}"\<close>: no decimals; a negative number keeps its sign, also when it rounds to 0.\<close>

definition fmt_0f :: "rat \<Rightarrow> string" where
  "fmt_0f x =
     (if x < 0 then ''-'' @ str_of_nat (nat (round_half_even (- x)))
      else str_of_nat (nat (round_half_even x)))"

text \<open>\<open>f"{x:.1f}"\<close>: one decimal.\<close>

definition fmt_1f :: "rat \<Rightarrow> string" where
  "fmt_1f x =
     (let t = nat (round_half_even (\<bar>x\<bar> * 10)) in
      (if x < 0 then ''-'' else []) @ str_of_nat (t div 10) @ ''.'' @ str_of_nat (t mod 10))"

text \<open>
  \<open>f"{x}"\<close> of a non-negative float read from a decimal literal of at most 16 significant
  digits: the integer part, a point and the decimals that are not trailing zeros (at
  least one).
\<close>

fun frac_digits :: "nat \<Rightarrow> rat \<Rightarrow> string" where
  "frac_digits 0 x = []"
| "frac_digits (Suc n) x =
     (let y = x * 10; d = nat \<lfloor>y\<rfloor>; r = y - of_nat d in
      char_of (48 + d) # (if r = 0 then [] else frac_digits n r))"

definition repr_float :: "rat \<Rightarrow> string" where
  "repr_float x =
     (let i = nat \<lfloor>x\<rfloor> in str_of_nat i @ ''.'' @ frac_digits 17 (x - of_nat i))"

section \<open>\<open>ejecutar_validacion_medica\<close>, step by step\<close>

text \<open>
  The function of \<open>ai_backend/agents/tripulacion.py\<close>. Each of its numbered steps
  (\<open>PASO 1\<close> to \<open>PASO 8\<close>) is one definition here, and the function itself composes them
  in the source's order. A Python exception that leaves the function is the value
  \<open>Inl e\<close>; a returned dictionary is \<open>Inr r\<close>.
\<close>

subsection \<open>PASO 1: the drug\<close>

definition farmacos_conocidos :: "string list" where
  "farmacos_conocidos =
     [''ibuprofeno'', ''metotrexato'', ''metotrexate'', ''naproxeno'', ''paracetamol'',
      ''prednisona'', ''adalimumab'', ''etanercept'', ''tocilizumab'', ''sulfasalazina'',
      ''leflunomida'', ''hidroxicloroquina'', ''azatioprina'', ''ciclosporina'', ''infliximab'']"

text \<open>The loop over the list: the first name that occurs in the lower-cased text.\<close>

fun buscar_conocido :: "string list \<Rightarrow> string \<Rightarrow> string option" where
  "buscar_conocido [] texto_lower = None"
| "buscar_conocido (f # fs) texto_lower =
     (if str_in f texto_lower
      then Some (if f = ''metotrexate'' then ''Metotrexato'' else capitalize f)
      else buscar_conocido fs texto_lower)"

text \<open>
  The class \<open>[A-Za-z...]\<close> of the fallback pattern: the ASCII letters and the twelve
  accented letters it lists (code points 193, 201, 205, 211, 218, 225, 233, 237, 243,
  250, 241, 209).
\<close>

definition is_letra :: "char \<Rightarrow> bool" where
  "is_letra c = (let n = cp c in
     (65 \<le> n \<and> n \<le> 90) \<or> (97 \<le> n \<and> n \<le> 122) \<or>
     n \<in> set [193, 201, 205, 211, 218, 225, 233, 237, 243, 250, 241, 209])"

text \<open>\<open>\b([A-Za-z...]{4,})\b\<close>\<close>

definition letras4 :: regex where
  "letras4 = Seqs [Chr is_letra, Chr is_letra, Chr is_letra, Chr is_letra, Star (Chr is_letra)]"

definition patron_palabra :: regex where
  "patron_palabra = Seqs [WordB, Group 0 letras4, WordB]"

text \<open>\<open>m.group(1)\<close>: the first group; \<open>None\<close> when it took no part in the match.\<close>

definition group1 :: "re_match \<Rightarrow> py_error + string option" where
  "group1 m = (case m_groups m of [] \<Rightarrow> Inl IndexError | g # _ \<Rightarrow> Inr g)"

text \<open>A method call on \<open>m.group(1)\<close>: on \<open>None\<close> it raises \<open>AttributeError\<close>.\<close>

definition group1_str :: "re_match \<Rightarrow> py_error + string" where
  "group1_str m =
     (case group1 m of
        Inl e \<Rightarrow> Inl e
      | Inr None \<Rightarrow> Inl AttributeError
      | Inr (Some g) \<Rightarrow> Inr g)"

definition extraer_farmaco :: "string \<Rightarrow> py_error + string" where
  "extraer_farmaco texto =
     (let farmaco = buscar_conocido farmacos_conocidos (lower texto) in
      if farmaco \<noteq> None \<and> farmaco \<noteq> Some []
      then Inr (the farmaco)
      else case re_search patron_palabra 1 texto of
          Some m \<Rightarrow> (case group1_str m of Inl e \<Rightarrow> Inl e | Inr g \<Rightarrow> Inr (capitalize g))
        | None \<Rightarrow> Inr ''Desconocido'')"

subsection \<open>PASO 2: the dose\<close>

text \<open>\<open>(\d+(?:[.,]\d+)?)\s*mg\s*/\s*kg\<close> and \<open>(\d+(?:[.,]\d+)?)\s*mg(?!\s*/\s*kg)\<close>, both
  with \<open>re.IGNORECASE\<close>.\<close>

definition patron_mg_kg :: regex where
  "patron_mg_kg = Seqs [Group 0 numero, ws, StrI ''mg'', ws, Lit CHR ''/'', ws, StrI ''kg'']"

definition patron_mg_abs :: regex where
  "patron_mg_abs =
     Seqs [Group 0 numero, ws, StrI ''mg'', NegLook (Seqs [ws, Lit CHR ''/'', ws, StrI ''kg''])]"

text \<open>\<open>float(g.replace(",", "."))\<close>\<close>

definition float_coma :: "string \<Rightarrow> py_error + rat" where
  "float_coma g =
     (case py_float (replace_char CHR '','' CHR ''.'' g) of
        None \<Rightarrow> Inl ValueError
      | Some v \<Rightarrow> Inr v)"

text \<open>\<open>float(m.group(1).replace(",", "."))\<close> after \<open>re.search\<close>; \<open>None\<close> without a match.\<close>

definition extraer_dosis :: "regex \<Rightarrow> string \<Rightarrow> py_error + rat option" where
  "extraer_dosis patron texto =
     (case re_search patron 1 texto of
        None \<Rightarrow> Inr None
      | Some m \<Rightarrow>
          (case group1_str m of
             Inl e \<Rightarrow> Inl e
           | Inr g \<Rightarrow> (case float_coma g of Inl e \<Rightarrow> Inl e | Inr v \<Rightarrow> Inr (Some v))))"

subsection \<open>PASO 3: the frequency\<close>

text \<open>\<open>cada\s+(\d+)\s*h\<close> with \<open>re.IGNORECASE\<close>\<close>

definition patron_cada :: regex where
  "patron_cada = Seqs [StrI ''cada'', ws1, Group 0 digits, ws, LitI CHR ''h'']"

text \<open>The pair \<open>(frecuencia_texto, frecuencia_horas)\<close>.\<close>

definition extraer_frecuencia :: "string \<Rightarrow> py_error + (string \<times> nat option)" where
  "extraer_frecuencia texto =
     (case re_search patron_cada 1 texto of
        Some m \<Rightarrow>
          (case group1 m of
             Inl e \<Rightarrow> Inl e
           | Inr None \<Rightarrow> Inl TypeError
           | Inr (Some g) \<Rightarrow>
               (case py_int g of
                  None \<Rightarrow> Inl ValueError
                | Some n \<Rightarrow> Inr (''cada '' @ str_of_nat n @ '' horas'', Some n)))
      | None \<Rightarrow>
          if str_in ''semanal'' (lower texto) then Inr (''semanal'', Some 168)
          else if str_in ''diario'' (lower texto) \<or> str_in ''diaria'' (lower texto)
          then Inr (''diario'', Some 24)
          else Inr ([], None))"

subsection \<open>PASO 4: the evidence\<close>

text \<open>
  The retrieval tool is a parameter: \<open>rag pregunta\<close> is \<open>Inr\<close> the text it returns or
  \<open>Inl\<close> the message of the exception it raises. The dictionary of name variants is an
  association list (\<open>acetaminof\<close>, code point 233, \<open>n\<close> is its accented entry).
\<close>

definition variantes_farmaco :: "(string \<times> string list) list" where
  "variantes_farmaco =
     [(''Metotrexato'', [''metotrexato'', ''metotrexate'', ''methotrexate'', ''MTX'']),
      (''Ibuprofeno'', [''ibuprofeno'', ''ibuprofen'']),
      (''Paracetamol'', [''paracetamol'', ''acetaminofen'', ''acetaminof'' @ [CHR 0xE9] @ ''n'']),
      (''Prednisona'', [''prednisona'', ''prednisone'']),
      (''Tocilizumab'', [''tocilizumab'']),
      (''Adalimumab'', [''adalimumab'', ''humira''])]"

definition nombres_buscar :: "string \<Rightarrow> string list" where
  "nombres_buscar farmaco =
     (case map_of variantes_farmaco farmaco of Some ns \<Rightarrow> ns | None \<Rightarrow> [lower farmaco])"

definition pregunta_rag :: "string \<Rightarrow> string" where
  "pregunta_rag nombre = ''dosis '' @ nombre @ '' ni'' @ [CHR 0xF1] @ ''os artritis juvenil mg''"

text \<open>
  The loop over the variants, with \<open>mejor_evidencia\<close> as accumulator: it stops at the first
  answer that names the variant or the drug, and otherwise keeps the first non-empty
  answer.
\<close>

fun consultar_variantes ::
  "(string \<Rightarrow> string + string) \<Rightarrow> string \<Rightarrow> string list \<Rightarrow> string \<Rightarrow> string + string" where
  "consultar_variantes rag farmaco [] mejor_evidencia = Inr mejor_evidencia"
| "consultar_variantes rag farmaco (nombre # ns) mejor_evidencia =
     (case rag (pregunta_rag nombre) of
        Inl e \<Rightarrow> Inl e
      | Inr evidencia_str \<Rightarrow>
          if str_in (lower nombre) (lower evidencia_str) \<or>
             str_in (lower farmaco) (lower evidencia_str)
          then Inr evidencia_str
          else consultar_variantes rag farmaco ns
                 (if mejor_evidencia = [] then evidencia_str else mejor_evidencia))"

text \<open>The \<open>try\<close> around the loop: an exception becomes the evidence text itself.\<close>

definition consultar_rag :: "(string \<Rightarrow> string + string) \<Rightarrow> string \<Rightarrow> string" where
  "consultar_rag rag farmaco =
     (case consultar_variantes rag farmaco (nombres_buscar farmaco) [] of
        Inl e \<Rightarrow> ''Error consultando RAG: '' @ e
      | Inr mejor_evidencia \<Rightarrow> mejor_evidencia)"

subsection \<open>PASO 5: the maximum dose of the guideline\<close>

text \<open>The classes of an accented or plain \<open>a\<close> (code point 225) and \<open>i\<close> (code point 237),
  and the word \<open>dia\<close> written with either \<open>i\<close>.\<close>

definition a_tilde :: regex where
  "a_tilde = OneOf [CHR 0xE1, CHR ''a'']"

definition i_tilde :: regex where
  "i_tilde = OneOf [CHR 0xED, CHR ''i'']"

definition dia :: regex where
  "dia = Seqs [Lit CHR ''d'', i_tilde, Lit CHR ''a'']"

text \<open>
  The nine patterns of the list \<open>patrones_dosis_max\<close>, named here after what they look
  for, in the source's order:
  \<^item> \<open>menos\s+de\s+(N)\s*mg\s*/?\s*semana\<close>
  \<^item> \<open>dosis\s+bajas\s*\(?menos\s+de\s+(N)\s*mg\<close>
  \<^item> \<open>dosis\s*m[aa]xima\s*(?:semanal\s*)?(?:de\s*)?(N)\s*mg\<close>
  \<^item> \<open>m[aa]ximo\s*(?:de\s*)?(N)\s*mg\s*/?\s*semana\<close>
  \<^item> \<open>dosis\s*m[aa]xima\s*(?:diaria\s*)?(?:de\s*)?(N)\s*mg\<close>
  \<^item> \<open>no\s*(?:debe\s*)?exceder\s*(?:de\s*)?(N)\s*mg\<close>
  \<^item> \<open>hasta\s*(N)\s*mg(?:\s*/\s*d[ii]a)?\<close>
  \<^item> \<open>(N)\s*mg\s*/\s*kg\s*/\s*d[ii]a\<close>
  \<^item> \<open>(N)\s*-\s*(N)\s*mg\s*/\s*semana\<close>

  where \<open>N\<close> is \<open>\d+(?:[.,]\d+)?\<close> and the first letter of each class \<open>[aa]\<close>, \<open>[ii]\<close> is
  the accented one.
\<close>

definition patron_menos_de_semana :: regex where
  "patron_menos_de_semana =
     Seqs [Str ''menos'', ws1, Str ''de'', ws1, Group 0 numero, ws, Str ''mg'', ws,
           Opt (Lit CHR ''/''), ws, Str ''semana'']"

definition patron_dosis_bajas :: regex where
  "patron_dosis_bajas =
     Seqs [Str ''dosis'', ws1, Str ''bajas'', ws, Opt (Lit CHR ''(''), Str ''menos'', ws1,
           Str ''de'', ws1, Group 0 numero, ws, Str ''mg'']"

definition patron_dosis_maxima_semanal :: regex where
  "patron_dosis_maxima_semanal =
     Seqs [Str ''dosis'', ws, Lit CHR ''m'', a_tilde, Str ''xima'', ws,
           Opt (Seq (Str ''semanal'') ws), Opt (Seq (Str ''de'') ws), Group 0 numero, ws,
           Str ''mg'']"

definition patron_maximo_semana :: regex where
  "patron_maximo_semana =
     Seqs [Lit CHR ''m'', a_tilde, Str ''ximo'', ws, Opt (Seq (Str ''de'') ws),
           Group 0 numero, ws, Str ''mg'', ws, Opt (Lit CHR ''/''), ws, Str ''semana'']"

definition patron_dosis_maxima_diaria :: regex where
  "patron_dosis_maxima_diaria =
     Seqs [Str ''dosis'', ws, Lit CHR ''m'', a_tilde, Str ''xima'', ws,
           Opt (Seq (Str ''diaria'') ws), Opt (Seq (Str ''de'') ws), Group 0 numero, ws,
           Str ''mg'']"

definition patron_no_exceder :: regex where
  "patron_no_exceder =
     Seqs [Str ''no'', ws, Opt (Seq (Str ''debe'') ws), Str ''exceder'', ws,
           Opt (Seq (Str ''de'') ws), Group 0 numero, ws, Str ''mg'']"

definition patron_hasta :: regex where
  "patron_hasta =
     Seqs [Str ''hasta'', ws, Group 0 numero, ws, Str ''mg'',
           Opt (Seqs [ws, Lit CHR ''/'', ws, dia])]"

definition patron_mg_kg_dia :: regex where
  "patron_mg_kg_dia =
     Seqs [Group 0 numero, ws, Str ''mg'', ws, Lit CHR ''/'', ws, Str ''kg'', ws,
           Lit CHR ''/'', ws, dia]"

definition patron_rango :: regex where
  "patron_rango =
     Seqs [Group 0 numero, ws, Lit CHR ''-'', ws, Group 1 numero, ws, Str ''mg'', ws,
           Lit CHR ''/'', ws, Str ''semana'']"

text \<open>The patterns that come before the range pattern, and the whole list: each pattern
  with its number of groups and its kind.\<close>

definition patrones_antes_del_rango :: "(regex \<times> nat \<times> string) list" where
  "patrones_antes_del_rango =
     [(patron_menos_de_semana, 1, ''semanal''),
      (patron_dosis_bajas, 1, ''semanal''),
      (patron_dosis_maxima_semanal, 1, ''semanal''),
      (patron_maximo_semana, 1, ''semanal''),
      (patron_dosis_maxima_diaria, 1, ''diario''),
      (patron_no_exceder, 1, ''diario''),
      (patron_hasta, 1, ''diario''),
      (patron_mg_kg_dia, 1, ''mg_kg'')]"

definition patrones_dosis_max :: "(regex \<times> nat \<times> string) list" where
  "patrones_dosis_max = patrones_antes_del_rango @ [(patron_rango, 2, ''semanal'')]"

text \<open>\<open>[g for g in match.groups() if g]\<close>: the groups that are neither \<open>None\<close> nor empty.\<close>

definition grupos_de :: "re_match \<Rightarrow> string list" where
  "grupos_de m = concat (map (\<lambda>g. case g of None \<Rightarrow> [] | Some w \<Rightarrow> if w = [] then [] else [w])
                             (m_groups m))"

text \<open>\<open>f"{valor} mg/{tipo if tipo != 'diario' else 'dia'}"\<close>, where \<open>dia\<close> has the accented
  \<open>i\<close>.\<close>

definition dosis_max_texto_de :: "rat \<Rightarrow> string \<Rightarrow> string" where
  "dosis_max_texto_de valor tipo =
     repr_float valor @ '' mg/'' @ (if tipo \<noteq> ''diario'' then tipo else ''d'' @ [CHR 0xED] @ ''a'')"

text \<open>
  The loop over the patterns: the first pattern that matches with a non-empty group
  gives the pair \<open>(dosis_max_guia, dosis_max_texto)\<close>, from its last group.
\<close>

fun buscar_dosis_max ::
  "(regex \<times> nat \<times> string) list \<Rightarrow> string \<Rightarrow> py_error + (rat \<times> string) option" where
  "buscar_dosis_max [] evidencia_lower = Inr None"
| "buscar_dosis_max ((patron, ng, tipo) # ps) evidencia_lower =
     (case re_search patron ng evidencia_lower of
        None \<Rightarrow> buscar_dosis_max ps evidencia_lower
      | Some m \<Rightarrow>
          (let grupos = grupos_de m in
           if grupos = [] then buscar_dosis_max ps evidencia_lower
           else case float_coma (last grupos) of
               Inl e \<Rightarrow> Inl e
             | Inr valor \<Rightarrow> Inr (Some (valor, dosis_max_texto_de valor tipo))))"

subsection \<open>PASO 6: the decision\<close>

text \<open>
  The word \<open>ninos\<close> with its second \<open>n\<close> under a tilde (code point 241), and the three
  contraindication patterns.
\<close>

definition ninos :: string where
  "ninos = ''ni'' @ [CHR 0xF1] @ ''os''"

definition en_o_para :: regex where
  "en_o_para = Alt (Str ''en'') (Str ''para'')"

definition patrones_contraindicacion :: "regex list" where
  "patrones_contraindicacion =
     [Seqs [Str ''contraindicado'', ws1, en_o_para, ws1,
            Alt (Str ''artritis'') (Alt (Str ''aij'') (Alt (Str ninos) (Str ''juvenil'')))],
      Seqs [Str ''no'', ws1, Alt (Str ''indicado'') (Str ''recomendado''), ws1, en_o_para, ws1,
            Alt (Str ''artritis'') (Alt (Str ''aij'') (Str ninos))],
      Seqs [Str ''no'', ws1, Str ''usar'', ws1, Str ''en'', ws1,
            Alt (Str ''artritis'') (Alt (Str ''aij'') (Str ninos))]]"

text \<open>\<open>s[a:b]\<close> for \<open>0 \<le> a\<close> and \<open>0 \<le> b\<close>.\<close>

definition slice :: "string \<Rightarrow> nat \<Rightarrow> nat \<Rightarrow> string" where
  "slice s a b = take (b - a) (drop a s)"

text \<open>
  The loop over the contraindication patterns: the first pattern that matches the
  lower-cased evidence gives \<open>contexto_contra\<close>, cut from the evidence as retrieved:
  \<open>evidencia_texto[max(0, idx-30):min(len(evidencia_texto), idx+100)]\<close>.
\<close>

fun buscar_contraindicacion :: "regex list \<Rightarrow> string \<Rightarrow> string option" where
  "buscar_contraindicacion [] evidencia_texto = None"
| "buscar_contraindicacion (patron # ps) evidencia_texto =
     (case re_search patron 0 (lower evidencia_texto) of
        Some m \<Rightarrow>
          (let idx = m_start m in
           Some (slice evidencia_texto (idx - 30) (min (length evidencia_texto) (idx + 100))))
      | None \<Rightarrow> buscar_contraindicacion ps evidencia_texto)"

text \<open>
  The dose in mg: \<open>dosis_mg_kg * float(peso_paciente)\<close> if both are true, else the absolute
  dose if it is true, else \<open>None\<close>. The source writes this computation twice, for
  \<open>dosis_prescrita\<close> (in PASO 6) and for \<open>dosis_calculada\<close> (PASO 7).
\<close>

definition calcular_dosis :: "rat option \<Rightarrow> rat option \<Rightarrow> rat option \<Rightarrow> rat option" where
  "calcular_dosis dosis_mg_kg peso_paciente dosis_absoluta =
     (if truthy dosis_mg_kg \<and> truthy peso_paciente
      then Some (the dosis_mg_kg * the peso_paciente)
      else if truthy dosis_absoluta then dosis_absoluta
      else None)"

text \<open>
  The signs of the messages that lie beyond code point 255 (a warning sign, a check
  mark, an information sign and \<open>greater or equal\<close>) are written as their UTF-8 bytes;
  nothing in the program reads a message.
\<close>

definition signo_aviso :: string where
  "signo_aviso = [CHR 0xE2, CHR 0x9A, CHR 0xA0, CHR 0xEF, CHR 0xB8, CHR 0x8F]"

definition signo_ok :: string where
  "signo_ok = [CHR 0xE2, CHR 0x9C, CHR 0x85]"

definition signo_info :: string where
  "signo_info = [CHR 0xE2, CHR 0x84, CHR 0xB9, CHR 0xEF, CHR 0xB8, CHR 0x8F]"

definition signo_mayor_igual :: string where
  "signo_mayor_igual = [CHR 0xE2, CHR 0x89, CHR 0xA5]"

definition guia :: string where
  "guia = ''gu'' @ [CHR 0xED] @ ''a''"

definition limite :: string where
  "limite = ''l'' @ [CHR 0xED] @ ''mite''"

definition segun :: string where
  "segun = ''seg'' @ [CHR 0xFA] @ ''n''"

text \<open>The three variables the decision sets.\<close>

record veredicto =
  es_aij :: bool
  decision :: string
  razon :: string

definition decidir ::
  "string \<Rightarrow> string \<Rightarrow> (rat \<times> string) option \<Rightarrow> rat option \<Rightarrow> rat option \<Rightarrow> rat option \<Rightarrow> veredicto"
  where
  "decidir farmaco evidencia_texto dosis_max dosis_mg_kg dosis_absoluta peso_paciente =
     (let evidencia_lower = lower evidencia_texto;
          dosis_max_guia = map_option fst dosis_max;
          dosis_max_texto = (case dosis_max of None \<Rightarrow> [] | Some (v, t) \<Rightarrow> t)
      in
      case buscar_contraindicacion patrones_contraindicacion evidencia_texto of
        Some contexto_contra \<Rightarrow>
          \<lparr>es_aij = False, decision = ''RECHAZADA'',
           razon = signo_aviso @ '' '' @ farmaco @ '' contraindicado para AIJ seg'' @ [CHR 0xFA] @
                   ''n la '' @ guia @ ''. Evidencia: '' @ [CHR 0x27] @ ''...'' @ contexto_contra @
                   ''...'' @ [CHR 0x27]\<rparr>
      | None \<Rightarrow>
          if truthy dosis_max_guia then
            (let dosis_prescrita = calcular_dosis dosis_mg_kg peso_paciente dosis_absoluta in
             if truthy dosis_prescrita then
               if the dosis_prescrita \<ge> the dosis_max_guia then
                 \<lparr>es_aij = False, decision = ''RECHAZADA'',
                  razon = signo_aviso @ '' DOSIS EXCESIVA: Se prescribe '' @
                          fmt_0f (the dosis_prescrita) @ '' mg pero la '' @ guia @
                          '' indica '' @ limite @ '' de '' @ fmt_0f (the dosis_max_guia) @
                          '' mg ('' @ dosis_max_texto @ ''). Dosis '' @ signo_mayor_igual @
                          fmt_0f (the dosis_max_guia) @ '' mg se consideran ALTAS.''\<rparr>
               else
                 \<lparr>es_aij = True, decision = ''APROBADA'',
                  razon = signo_ok @ '' Dosis '' @ fmt_0f (the dosis_prescrita) @
                          '' mg dentro del rango seguro ('' @ limite @ '': '' @
                          fmt_0f (the dosis_max_guia) @ '' mg '' @ segun @ '' '' @ guia @ '').''\<rparr>
             else
               \<lparr>es_aij = True, decision = ''ALERTA'',
                razon = signo_info @ '' '' @ farmaco @ '' indicado. L'' @ [CHR 0xED] @
                        ''mite '' @ segun @ '' '' @ guia @ '': '' @ fmt_0f (the dosis_max_guia) @
                        '' mg. No se pudo verificar la dosis prescrita.''\<rparr>)
          else if str_in ''no se encontr'' evidencia_lower \<or> str_in ''error'' evidencia_lower \<or>
                  strip evidencia_texto = []
          then
            \<lparr>es_aij = False, decision = ''ALERTA'',
             razon = signo_aviso @ '' No se encontr'' @ [CHR 0xF3] @ '' informaci'' @ [CHR 0xF3] @
                     ''n de '' @ farmaco @ '' en las '' @ guia @ ''s m'' @ [CHR 0xE9] @
                     ''dicas. Verificar manualmente.''\<rparr>
          else if str_in (lower farmaco) evidencia_lower \<or> str_in ''artritis'' evidencia_lower
          then
            (let extracto = strip (replace_char (CHR 0x0A) CHR '' '' (take 300 evidencia_texto)) in
             \<lparr>es_aij = True, decision = ''ALERTA'',
              razon = signo_info @ '' '' @ farmaco @ '' encontrado en '' @ guia @
                      ''s pero no se pudo extraer dosis m'' @ [CHR 0xE1] @ ''xima. Evidencia: '' @
                      [CHR 0x27] @ extracto @ ''...'' @ [CHR 0x27]\<rparr>)
          else
            \<lparr>es_aij = False, decision = ''ALERTA'',
             razon = signo_aviso @ '' No se encontr'' @ [CHR 0xF3] @ '' evidencia clara de '' @
                     farmaco @ '' para AIJ en las '' @ guia @ ''s.''\<rparr>)"

subsection \<open>The result structurer: \<open>ProcesarRecetaTool._run\<close>\<close>

text \<open>
  The dictionary the program returns, as nested records; the field \<open>k_x\<close> is the key
  \<open>"x"\<close>. A key that only some paths write has an optional value, \<open>None\<close> for a missing
  key (so \<open>Some None\<close> is a key whose value is Python's \<open>None\<close>).
\<close>

record analisis =
  k_farmaco :: string
  k_dosis_calculada :: string
  k_dosis_mg_kg_detectada :: "rat option"
  k_dosis_absoluta_mg :: "rat option option"
  k_frecuencia :: string
  k_frecuencia_horas :: "nat option"

record auditoria =
  k_es_aij :: bool
  k_razon :: string
  k_dosis_max_guia :: "rat option option"
  k_evidencia_raw :: "string option option"

record resultado =
  k_estado :: string
  k_decision :: "string option"
  k_analisis :: analisis
  k_auditoria :: auditoria

text \<open>
  \<open>_run\<close> of \<open>ai_backend/tools/mis_herramientas.py\<close>. It returns the JSON text of a
  dictionary; the model returns the dictionary, which is what \<open>json.loads\<close> gives back to
  the caller.
\<close>

definition ProcesarRecetaTool_run ::
  "string \<Rightarrow> string \<Rightarrow> string \<Rightarrow> rat \<Rightarrow> rat option \<Rightarrow> string \<Rightarrow> nat option \<Rightarrow> bool \<Rightarrow> string \<Rightarrow>
   string option \<Rightarrow> resultado" where
  "ProcesarRecetaTool_run id_paciente medico farmaco peso_paciente dosis_mg_kg frecuencia_texto
       frecuencia_horas es_tratamiento_aij razon_decision decision_opt =
     (let dosis_str =
        (case dosis_mg_kg of
           None \<Rightarrow> ''N/D''
         | Some d \<Rightarrow> (let dosis_total = peso_paciente * d in fmt_0f dosis_total @ '' mg''))
      in
      \<lparr>k_estado = (if es_tratamiento_aij then ''Aprobada'' else ''Alerta''),
       k_decision = decision_opt,
       k_analisis =
         \<lparr>k_farmaco = farmaco, k_dosis_calculada = dosis_str,
          k_dosis_mg_kg_detectada = dosis_mg_kg, k_dosis_absoluta_mg = None,
          k_frecuencia = frecuencia_texto, k_frecuencia_horas = frecuencia_horas\<rparr>,
       k_auditoria =
         \<lparr>k_es_aij = es_tratamiento_aij, k_razon = razon_decision, k_dosis_max_guia = None,
          k_evidencia_raw = None\<rparr>\<rparr>)"

subsection \<open>PASO 8: the result\<close>

text \<open>The dictionary of the \<open>except\<close> branch.\<close>

definition resultado_fallback ::
  "veredicto \<Rightarrow> string \<Rightarrow> rat option \<Rightarrow> rat option \<Rightarrow> rat option \<Rightarrow> string \<Rightarrow> nat option \<Rightarrow>
   rat option \<Rightarrow> string \<Rightarrow> resultado" where
  "resultado_fallback v farmaco dosis_calculada dosis_mg_kg dosis_absoluta frecuencia_texto
       frecuencia_horas dosis_max_guia evidencia_texto =
     \<lparr>k_estado = (if decision v = ''APROBADA'' then ''Aprobada'' else decision v),
      k_decision = Some (decision v),
      k_analisis =
        \<lparr>k_farmaco = farmaco,
         k_dosis_calculada =
           (if truthy dosis_calculada then fmt_0f (the dosis_calculada) @ '' mg'' else ''N/D''),
         k_dosis_mg_kg_detectada = dosis_mg_kg, k_dosis_absoluta_mg = Some dosis_absoluta,
         k_frecuencia = frecuencia_texto, k_frecuencia_horas = frecuencia_horas\<rparr>,
      k_auditoria =
        \<lparr>k_es_aij = es_aij v, k_razon = razon v, k_dosis_max_guia = Some dosis_max_guia,
         k_evidencia_raw =
           Some (if evidencia_texto \<noteq> [] then Some (take 500 evidencia_texto) else None)\<rparr>\<rparr>"

text \<open>
  The \<open>try\<close> of step 8. \<open>float(peso_paciente)\<close> raises \<open>TypeError\<close> on \<open>None\<close>, which the
  \<open>except\<close> branch turns into the fallback dictionary; otherwise the structurer's
  dictionary is returned, with the absolute dose added when there is one and no dose
  per kg.
\<close>

definition generar_resultado ::
  "veredicto \<Rightarrow> string \<Rightarrow> string \<Rightarrow> rat option \<Rightarrow> rat option \<Rightarrow> rat option \<Rightarrow> rat option \<Rightarrow>
   string \<Rightarrow> nat option \<Rightarrow> rat option \<Rightarrow> string \<Rightarrow> resultado" where
  "generar_resultado v id_paciente farmaco peso_paciente dosis_calculada dosis_mg_kg
       dosis_absoluta frecuencia_texto frecuencia_horas dosis_max_guia evidencia_texto =
     (case peso_paciente of
        None \<Rightarrow>
          resultado_fallback v farmaco dosis_calculada dosis_mg_kg dosis_absoluta
            frecuencia_texto frecuencia_horas dosis_max_guia evidencia_texto
      | Some peso \<Rightarrow>
          (let parsed = ProcesarRecetaTool_run id_paciente ''Sistema IA'' farmaco peso
                          dosis_mg_kg frecuencia_texto frecuencia_horas (es_aij v) (razon v)
                          (Some (decision v))
           in
           if truthy dosis_absoluta \<and> \<not> truthy dosis_mg_kg
           then parsed\<lparr>k_analisis := (k_analisis parsed)\<lparr>k_dosis_absoluta_mg := Some dosis_absoluta\<rparr>\<rparr>
           else parsed))"

subsection \<open>The function\<close>

text \<open>
  \<open>texto_medico\<close> and \<open>peso_paciente\<close> may be Python's \<open>None\<close>. The record \<open>pasos\<close> holds
  the local variables of the function as they are when step 8 starts.
\<close>

record pasos =
  v_farmaco :: string
  v_dosis_mg_kg :: "rat option"
  v_dosis_absoluta :: "rat option"
  v_frecuencia_texto :: string
  v_frecuencia_horas :: "nat option"
  v_evidencia_texto :: string
  v_dosis_max :: "(rat \<times> string) option"
  v_veredicto :: veredicto
  v_dosis_calculada :: "rat option"

definition ejecutar_pasos ::
  "(string \<Rightarrow> string + string) \<Rightarrow> string option \<Rightarrow> rat option \<Rightarrow> py_error + pasos" where
  "ejecutar_pasos rag texto_medico peso_paciente =
     (let texto = (case texto_medico of None \<Rightarrow> [] | Some t \<Rightarrow> t) in
      case extraer_farmaco texto of Inl e \<Rightarrow> Inl e | Inr farmaco \<Rightarrow>
      case extraer_dosis patron_mg_kg texto of Inl e \<Rightarrow> Inl e | Inr dosis_mg_kg \<Rightarrow>
      case extraer_dosis patron_mg_abs texto of Inl e \<Rightarrow> Inl e | Inr dosis_absoluta \<Rightarrow>
      case extraer_frecuencia texto of Inl e \<Rightarrow> Inl e | Inr (frecuencia_texto, frecuencia_horas) \<Rightarrow>
      (let evidencia_texto = consultar_rag rag farmaco in
       case buscar_dosis_max patrones_dosis_max (lower evidencia_texto) of
         Inl e \<Rightarrow> Inl e
       | Inr dosis_max \<Rightarrow>
           Inr \<lparr>v_farmaco = farmaco, v_dosis_mg_kg = dosis_mg_kg,
                v_dosis_absoluta = dosis_absoluta, v_frecuencia_texto = frecuencia_texto,
                v_frecuencia_horas = frecuencia_horas, v_evidencia_texto = evidencia_texto,
                v_dosis_max = dosis_max,
                v_veredicto = decidir farmaco evidencia_texto dosis_max dosis_mg_kg
                                dosis_absoluta peso_paciente,
                v_dosis_calculada = calcular_dosis dosis_mg_kg peso_paciente dosis_absoluta\<rparr>))"

definition ejecutar_validacion_medica ::
  "(string \<Rightarrow> string + string) \<Rightarrow> string option \<Rightarrow> rat option \<Rightarrow> string \<Rightarrow> py_error + resultado"
  where
  "ejecutar_validacion_medica rag texto_medico peso_paciente id_paciente =
     (case ejecutar_pasos rag texto_medico peso_paciente of
        Inl e \<Rightarrow> Inl e
      | Inr p \<Rightarrow>
          Inr (generar_resultado (v_veredicto p) id_paciente (v_farmaco p) peso_paciente
                 (v_dosis_calculada p) (v_dosis_mg_kg p) (v_dosis_absoluta p)
                 (v_frecuencia_texto p) (v_frecuencia_horas p) (map_option fst (v_dosis_max p))
                 (v_evidencia_texto p)))"

section \<open>The dose string of \<open>AgenteMatematico.calcular_dosis_exactas\<close>\<close>

text \<open>
  \<open>ai_engine/structurer.py\<close> prints the same product (dose per kg times weight) in its own
  way: \<open>f"{int(total_mg)} mg"\<close> if \<open>total_mg.is_integer()\<close>, else \<open>f"{total_mg:.1f} mg"\<close>.
  The weight is positive there and the dose is read from digits, so the product is not
  negative.
\<close>

definition formato_matematico :: "rat \<Rightarrow> string" where
  "formato_matematico total_mg =
     (if total_mg = of_int \<lfloor>total_mg\<rfloor> then str_of_nat (nat \<lfloor>total_mg\<rfloor>) @ '' mg''
      else fmt_1f total_mg @ '' mg'')"

section \<open>\<open>AgenteAuditor.validar_pauta\<close>: reading the answer of the language model\<close>

text \<open>\<open>s.find(c)\<close> and \<open>s.rfind(c)\<close>: the first and the last index of \<open>c\<close>, or \<open>-1\<close>.\<close>

fun py_find :: "char \<Rightarrow> string \<Rightarrow> int" where
  "py_find c [] = - 1"
| "py_find c (x # xs) = (if x = c then 0 else (let i = py_find c xs in if i < 0 then - 1 else i + 1))"

fun py_rfind :: "char \<Rightarrow> string \<Rightarrow> int" where
  "py_rfind c [] = - 1"
| "py_rfind c (x # xs) =
     (let i = py_rfind c xs in if 0 \<le> i then i + 1 else if x = c then 0 else - 1)"

text \<open>\<open>s[i:j]\<close> for any integers: a negative index counts from the end, and both are
  clipped to the string.\<close>

definition py_slice :: "string \<Rightarrow> int \<Rightarrow> int \<Rightarrow> string" where
  "py_slice s i j =
     (let n = int (length s);
          a = (if i < 0 then max 0 (n + i) else min i n);
          b = (if j < 0 then max 0 (n + j) else min j n)
      in take (nat (b - a)) (drop (nat a) s))"





section \<open>Test doubles and the words of the specification\<close>

text \<open>
  The collaborators of the program are parameters of the model. For a concrete run they
  are replaced by the simplest ones: a retrieval tool that answers every question with
  the same text, a language model that answers every prompt with the same text, and a
  JSON parser that succeeds and hands back the text it was given.
\<close>

definition rag_fijo :: "string \<Rightarrow> string \<Rightarrow> string + string" where
  "rag_fijo evidencia pregunta = Inr evidencia"





text \<open>
  The fallback for the drug as the specification words it: the first capitalized word
  of at least four characters, else \<open>Desconocido\<close>. A word is a maximal run of word
  characters, and it is capitalized if it starts with an upper-case letter.
\<close>

definition is_upper :: "char \<Rightarrow> bool" where
  "is_upper c = (let n = cp c in (65 \<le> n \<and> n \<le> 90) \<or> (192 \<le> n \<and> n \<le> 214) \<or> (216 \<le> n \<and> n \<le> 222))"

fun palabras :: "string \<Rightarrow> string \<Rightarrow> string list" where
  "palabras w [] = (if w = [] then [] else [rev w])"
| "palabras w (c # cs) =
     (if is_word c then palabras (c # w) cs
      else (if w = [] then [] else [rev w]) @ palabras [] cs)"

definition primera_capitalizada_spec :: "string \<Rightarrow> string" where
  "primera_capitalizada_spec texto =
     (case filter (\<lambda>w. 4 \<le> length w \<and> is_upper (hd w)) (palabras [] texto) of
        [] \<Rightarrow> ''Desconocido''
      | w # _ \<Rightarrow> w)"

section \<open>What a pattern can consume and capture\<close>

text \<open>
  The language of a pattern bounds what the matcher consumes: every state the matcher
  returns lies behind a word of the language (a lookahead and a word boundary consume
  nothing).
\<close>

primrec lang :: "regex \<Rightarrow> string set" where
  "lang Eps = {[]}"
| "lang (Chr P) = {[c] | c. P c}"
| "lang (Seq r1 r2) = {u @ v | u v. u \<in> lang r1 \<and> v \<in> lang r2}"
| "lang (Alt r1 r2) = lang r1 \<union> lang r2"
| "lang (Star r) = {concat ws | ws. set ws \<subseteq> lang r}"
| "lang (Group i r) = lang r"
| "lang (NegLook r) = {[]}"
| "lang WordB = {[]}"

text \<open>Strings of digits, and the numbers \<open>digits\<close>, \<open>digits.digits\<close>, \<open>digits,digits\<close>.\<close>

definition digs :: "string \<Rightarrow> bool" where
  "digs w = (w \<noteq> [] \<and> list_all is_digit w)"

definition num_form :: "string \<Rightarrow> bool" where
  "num_form w = (digs w \<or> (\<exists>a c b. w = a @ c # b \<and> digs a \<and> digs b \<and> (c = CHR ''.'' \<or> c = CHR '','')))"

text \<open>
  \<open>grupos_bien P r\<close>: whatever a group of \<open>r\<close> captures satisfies \<open>P\<close>. \<open>caps_bien P st\<close>: every
  capture of the state does. \<open>fija i r\<close>: every match of \<open>r\<close> sets group \<open>i\<close>. \<open>cap_puesta i st\<close>:
  group \<open>i\<close> of the state is set.
\<close>

primrec grupos_bien :: "(string \<Rightarrow> bool) \<Rightarrow> regex \<Rightarrow> bool" where
  "grupos_bien P Eps = True"
| "grupos_bien P (Chr Q) = True"
| "grupos_bien P (Seq r1 r2) = (grupos_bien P r1 \<and> grupos_bien P r2)"
| "grupos_bien P (Alt r1 r2) = (grupos_bien P r1 \<and> grupos_bien P r2)"
| "grupos_bien P (Star r) = grupos_bien P r"
| "grupos_bien P (Group i r) = ((\<forall>w\<in>lang r. P w) \<and> grupos_bien P r)"
| "grupos_bien P (NegLook r) = True"
| "grupos_bien P WordB = True"

definition caps_bien :: "(string \<Rightarrow> bool) \<Rightarrow> mstate \<Rightarrow> bool" where
  "caps_bien P st = (\<forall>g. Some g \<in> set (caps st) \<longrightarrow> P g)"

primrec fija :: "nat \<Rightarrow> regex \<Rightarrow> bool" where
  "fija i Eps = False"
| "fija i (Chr Q) = False"
| "fija i (Seq r1 r2) = (fija i r1 \<or> fija i r2)"
| "fija i (Alt r1 r2) = (fija i r1 \<and> fija i r2)"
| "fija i (Star r) = False"
| "fija i (Group j r) = (i = j \<or> fija i r)"
| "fija i (NegLook r) = False"
| "fija i WordB = False"

definition cap_puesta :: "nat \<Rightarrow> mstate \<Rightarrow> bool" where
  "cap_puesta i st = (i < length (caps st) \<and> caps st ! i \<noteq> None)"

text \<open>
  What a match consumes together with what it captures: \<open>sem r w c c'\<close> says that \<open>r\<close> can
  consume the word \<open>w\<close> and turn the captures \<open>c\<close> into \<open>c'\<close> (the conditions of a
  lookahead and of a word boundary are left out, so this bounds the matcher from above).
  \<open>sin_grupos r\<close>: the pattern has no group.
\<close>

inductive sem :: "regex \<Rightarrow> string \<Rightarrow> string option list \<Rightarrow> string option list \<Rightarrow> bool" where
  sem_Eps: "sem Eps [] c c"
| sem_Chr: "P x \<Longrightarrow> sem (Chr P) [x] c c"
| sem_Seq: "sem r1 u c c1 \<Longrightarrow> sem r2 v c1 c2 \<Longrightarrow> sem (Seq r1 r2) (u @ v) c c2"
| sem_Alt1: "sem r1 w c c' \<Longrightarrow> sem (Alt r1 r2) w c c'"
| sem_Alt2: "sem r2 w c c' \<Longrightarrow> sem (Alt r1 r2) w c c'"
| sem_Star0: "sem (Star r) [] c c"
| sem_Star1: "sem r u c c1 \<Longrightarrow> sem (Star r) v c1 c2 \<Longrightarrow> sem (Star r) (u @ v) c c2"
| sem_Group: "sem r w c c1 \<Longrightarrow> sem (Group i r) w c (c1[i := Some w])"
| sem_NegLook: "sem (NegLook r) [] c c"
| sem_WordB: "sem WordB [] c c"

primrec sin_grupos :: "regex \<Rightarrow> bool" where
  "sin_grupos Eps = True"
| "sin_grupos (Chr P) = True"
| "sin_grupos (Seq r1 r2) = (sin_grupos r1 \<and> sin_grupos r2)"
| "sin_grupos (Alt r1 r2) = (sin_grupos r1 \<and> sin_grupos r2)"
| "sin_grupos (Star r) = sin_grupos r"
| "sin_grupos (Group i r) = False"
| "sin_grupos (NegLook r) = True"
| "sin_grupos WordB = True"

section \<open>The matcher and the conversions never fail on what a group captures\<close>

lemma star_iter_lang:
  assumes f: "\<And>st st'. st' \<in> set (f st) \<Longrightarrow> \<exists>w\<in>L. rest st = w @ rest st'"
  shows "st' \<in> set (star_iter f n st) \<Longrightarrow> \<exists>ws. set ws \<subseteq> L \<and> rest st = concat ws @ rest st'"
proof (induction n arbitrary: st)
  case 0
  then have "rest st = concat [] @ rest st'" by simp
  then show ?case by (metis empty_set empty_subsetI)
next
  case (Suc n)
  from Suc.prems consider (stop) "st' = st"
    | (more) st1 where "st1 \<in> set (f st)" "st' \<in> set (star_iter f n st1)"
    by (auto split: if_splits)
  then show ?case
  proof cases
    case stop
    then have "rest st = concat [] @ rest st'" by simp
    then show ?thesis by (metis empty_set empty_subsetI)
  next
    case more
    from f[OF more(1)] obtain w where w: "w \<in> L" "rest st = w @ rest st1" by blast
    from Suc.IH[OF more(2)] obtain ws where ws: "set ws \<subseteq> L" "rest st1 = concat ws @ rest st'"
      by blast
    have "set (w # ws) \<subseteq> L" "rest st = concat (w # ws) @ rest st'"
      using w ws by auto
    then show ?thesis by blast
  qed
qed

lemma rmatch_lang: "st' \<in> set (rmatch r st) \<Longrightarrow> \<exists>w\<in>lang r. rest st = w @ rest st'"
proof (induction r arbitrary: st st')
  case Eps
  then show ?case by simp
next
  case (Chr P)
  then show ?case by (auto split: list.splits if_splits)
next
  case (Seq r1 r2)
  from Seq.prems obtain st1 where 1: "st1 \<in> set (rmatch r1 st)" and 2: "st' \<in> set (rmatch r2 st1)"
    by auto
  from Seq.IH(1)[OF 1] obtain u where u: "u \<in> lang r1" "rest st = u @ rest st1" by blast
  from Seq.IH(2)[OF 2] obtain v where v: "v \<in> lang r2" "rest st1 = v @ rest st'" by blast
  have "u @ v \<in> lang (Seq r1 r2)" using u v by auto
  moreover have "rest st = (u @ v) @ rest st'" using u v by simp
  ultimately show ?case by blast
next
  case (Alt r1 r2)
  from Alt.prems have "st' \<in> set (rmatch r1 st) \<or> st' \<in> set (rmatch r2 st)" by simp
  then show ?case
  proof
    assume "st' \<in> set (rmatch r1 st)"
    from Alt.IH(1)[OF this] show ?thesis by auto
  next
    assume "st' \<in> set (rmatch r2 st)"
    from Alt.IH(2)[OF this] show ?thesis by auto
  qed
next
  case (Star r)
  from Star.prems have "st' \<in> set (star_iter (rmatch r) (length (rest st)) st)" by simp
  from star_iter_lang[where f = "rmatch r" and L = "lang r", OF Star.IH this]
  show ?case by auto
next
  case (Group i r)
  from Group.prems obtain st1 where 1: "st1 \<in> set (rmatch r st)"
    and 2: "st' = set_cap i (take (length (rest st) - length (rest st1)) (rest st)) st1"
    by auto
  from Group.IH[OF 1] 2 show ?case by (simp add: set_cap_def)
next
  case (NegLook r)
  then show ?case by (auto split: if_splits)
next
  case WordB
  then show ?case by (auto split: if_splits)
qed

lemma star_iter_inv:
  assumes f: "\<And>st st'. Q st \<Longrightarrow> st' \<in> set (f st) \<Longrightarrow> Q st'"
  shows "Q st \<Longrightarrow> st' \<in> set (star_iter f n st) \<Longrightarrow> Q st'"
proof (induction n arbitrary: st)
  case 0
  then show ?case by simp
next
  case (Suc n)
  from Suc.prems(2) consider (stop) "st' = st"
    | (more) st1 where "st1 \<in> set (f st)" "st' \<in> set (star_iter f n st1)"
    by (auto split: if_splits)
  then show ?case
  proof cases
    case stop
    with Suc.prems(1) show ?thesis by simp
  next
    case more
    from f[OF Suc.prems(1) more(1)] have "Q st1" .
    from Suc.IH[OF this more(2)] show ?thesis .
  qed
qed

lemma rmatch_caps_bien:
  "grupos_bien P r \<Longrightarrow> caps_bien P st \<Longrightarrow> st' \<in> set (rmatch r st) \<Longrightarrow> caps_bien P st'"
proof (induction r arbitrary: st st')
  case Eps
  then show ?case by simp
next
  case (Chr Q)
  then show ?case by (auto simp: caps_bien_def split: list.splits if_splits)
next
  case (Seq r1 r2)
  from Seq.prems(3) obtain st1 where 1: "st1 \<in> set (rmatch r1 st)" and 2: "st' \<in> set (rmatch r2 st1)"
    by auto
  from Seq.prems(1) have g: "grupos_bien P r1" "grupos_bien P r2" by simp_all
  from Seq.IH(1)[OF g(1) Seq.prems(2) 1] have "caps_bien P st1" .
  from Seq.IH(2)[OF g(2) this 2] show ?case .
next
  case (Alt r1 r2)
  from Alt.prems(1) have g: "grupos_bien P r1" "grupos_bien P r2" by simp_all
  from Alt.prems(3) have "st' \<in> set (rmatch r1 st) \<or> st' \<in> set (rmatch r2 st)" by simp
  then show ?case using Alt.IH(1)[OF g(1) Alt.prems(2)] Alt.IH(2)[OF g(2) Alt.prems(2)] by blast
next
  case (Star r)
  from Star.prems(1) have g: "grupos_bien P r" by simp
  from Star.prems(3) have s: "st' \<in> set (star_iter (rmatch r) (length (rest st)) st)" by simp
  show ?case
    by (rule star_iter_inv[where Q = "caps_bien P" and f = "rmatch r", OF Star.IH[OF g] Star.prems(2) s])
next
  case (Group i r)
  from Group.prems(1) have g: "grupos_bien P r" and b: "\<forall>w\<in>lang r. P w" by simp_all
  from Group.prems(3) obtain st1 where 1: "st1 \<in> set (rmatch r st)"
    and 2: "st' = set_cap i (take (length (rest st) - length (rest st1)) (rest st)) st1"
    by auto
  from Group.IH[OF g Group.prems(2) 1] have c1: "caps_bien P st1" .
  from rmatch_lang[OF 1] obtain w where w: "w \<in> lang r" "rest st = w @ rest st1" by blast
  then have tk: "take (length (rest st) - length (rest st1)) (rest st) = w" by simp
  from w b have "P w" by blast
  with c1 show ?case unfolding 2 tk
    by (auto simp: caps_bien_def set_cap_def dest!: set_update_subset_insert[THEN subsetD])
next
  case (NegLook r)
  then show ?case by (auto split: if_splits)
next
  case WordB
  then show ?case by (auto split: if_splits)
qed

lemma rmatch_caps_length: "st' \<in> set (rmatch r st) \<Longrightarrow> length (caps st') = length (caps st)"
proof (induction r arbitrary: st st')
  case Eps
  then show ?case by simp
next
  case (Chr Q)
  then show ?case by (auto split: list.splits if_splits)
next
  case (Seq r1 r2)
  from Seq.prems obtain st1 where 1: "st1 \<in> set (rmatch r1 st)" and 2: "st' \<in> set (rmatch r2 st1)"
    by auto
  from Seq.IH(1)[OF 1] Seq.IH(2)[OF 2] show ?case by simp
next
  case (Alt r1 r2)
  from Alt.prems have "st' \<in> set (rmatch r1 st) \<or> st' \<in> set (rmatch r2 st)" by simp
  then show ?case using Alt.IH by blast
next
  case (Star r)
  from Star.prems have s: "st' \<in> set (star_iter (rmatch r) (length (rest st)) st)" by simp
  have step: "\<And>a b. length (caps a) = length (caps st) \<Longrightarrow> b \<in> set (rmatch r a)
      \<Longrightarrow> length (caps b) = length (caps st)"
    using Star.IH by simp
  show ?case
    by (rule star_iter_inv[where Q = "\<lambda>a. length (caps a) = length (caps st)" and f = "rmatch r",
          OF step refl s])
next
  case (Group i r)
  from Group.prems obtain st1 where 1: "st1 \<in> set (rmatch r st)"
    and 2: "st' = set_cap i (take (length (rest st) - length (rest st1)) (rest st)) st1"
    by auto
  from Group.IH[OF 1] 2 show ?case by (simp add: set_cap_def)
next
  case (NegLook r)
  then show ?case by (auto split: if_splits)
next
  case WordB
  then show ?case by (auto split: if_splits)
qed

lemma rmatch_cap_puesta:
  "cap_puesta i st \<Longrightarrow> st' \<in> set (rmatch r st) \<Longrightarrow> cap_puesta i st'"
proof (induction r arbitrary: st st')
  case Eps
  then show ?case by simp
next
  case (Chr Q)
  then show ?case by (auto simp: cap_puesta_def split: list.splits if_splits)
next
  case (Seq r1 r2)
  from Seq.prems(2) obtain st1 where 1: "st1 \<in> set (rmatch r1 st)" and 2: "st' \<in> set (rmatch r2 st1)"
    by auto
  from Seq.IH(2)[OF Seq.IH(1)[OF Seq.prems(1) 1] 2] show ?case .
next
  case (Alt r1 r2)
  from Alt.prems(2) have "st' \<in> set (rmatch r1 st) \<or> st' \<in> set (rmatch r2 st)" by simp
  then show ?case using Alt.IH(1)[OF Alt.prems(1)] Alt.IH(2)[OF Alt.prems(1)] by blast
next
  case (Star r)
  from Star.prems(2) have s: "st' \<in> set (star_iter (rmatch r) (length (rest st)) st)" by simp
  show ?case
    by (rule star_iter_inv[where Q = "cap_puesta i" and f = "rmatch r", OF Star.IH Star.prems(1) s])
next
  case (Group j r)
  from Group.prems(2) obtain st1 where 1: "st1 \<in> set (rmatch r st)"
    and 2: "st' = set_cap j (take (length (rest st) - length (rest st1)) (rest st)) st1"
    by auto
  from Group.IH[OF Group.prems(1) 1] have "cap_puesta i st1" .
  then show ?case unfolding 2 by (cases "i = j") (auto simp: cap_puesta_def set_cap_def)
next
  case (NegLook r)
  then show ?case by (auto split: if_splits)
next
  case WordB
  then show ?case by (auto split: if_splits)
qed

lemma rmatch_fija:
  "fija i r \<Longrightarrow> i < length (caps st) \<Longrightarrow> st' \<in> set (rmatch r st) \<Longrightarrow> cap_puesta i st'"
proof (induction r arbitrary: st st')
  case (Seq r1 r2)
  from Seq.prems(3) obtain st1 where 1: "st1 \<in> set (rmatch r1 st)" and 2: "st' \<in> set (rmatch r2 st1)"
    by auto
  from rmatch_caps_length[OF 1] Seq.prems(2) have l1: "i < length (caps st1)" by simp
  from Seq.prems(1) have "fija i r1 \<or> fija i r2" by simp
  then show ?case
  proof
    assume "fija i r1"
    from Seq.IH(1)[OF this Seq.prems(2) 1] have "cap_puesta i st1" .
    from rmatch_cap_puesta[OF this 2] show ?thesis .
  next
    assume "fija i r2"
    from Seq.IH(2)[OF this l1 2] show ?thesis .
  qed
next
  case (Alt r1 r2)
  from Alt.prems(1) have g: "fija i r1" "fija i r2" by simp_all
  from Alt.prems(3) have "st' \<in> set (rmatch r1 st) \<or> st' \<in> set (rmatch r2 st)" by simp
  then show ?case using Alt.IH(1)[OF g(1) Alt.prems(2)] Alt.IH(2)[OF g(2) Alt.prems(2)] by blast
next
  case (Group j r)
  from Group.prems(3) obtain st1 where 1: "st1 \<in> set (rmatch r st)"
    and 2: "st' = set_cap j (take (length (rest st) - length (rest st1)) (rest st)) st1"
    by auto
  from rmatch_caps_length[OF 1] Group.prems(2) have l1: "i < length (caps st1)" by simp
  show ?case
  proof (cases "i = j")
    case True
    with l1 show ?thesis unfolding 2 by (simp add: cap_puesta_def set_cap_def)
  next
    case False
    with Group.prems(1) have "fija i r" by simp
    from Group.IH[OF this Group.prems(2) 1] have "cap_puesta i st1" .
    with False show ?thesis unfolding 2 by (auto simp: cap_puesta_def set_cap_def)
  qed
qed simp_all

lemma search_from_Some:
  "search_from r ng p s i = Some m \<Longrightarrow>
     \<exists>p' s' st'. st' \<in> set (rmatch r (MState p' s' (replicate ng None))) \<and> m_groups m = caps st'"
proof (induction s arbitrary: p i)
  case Nil
  then show ?case
    by (cases "rmatch r (MState p [] (replicate ng None))") (auto, metis list.set_intros(1))
next
  case (Cons c cs)
  show ?case
  proof (cases "rmatch r (MState p (c # cs) (replicate ng None))")
    case Nil
    with Cons.prems have "search_from r ng (Some c) cs (Suc i) = Some m" by simp
    from Cons.IH[OF this] show ?thesis .
  next
    case (Cons st' sts)
    with Cons.prems have "m_groups m = caps st'" by auto
    moreover have "st' \<in> set (rmatch r (MState p (c # cs) (replicate ng None)))"
      using Cons by simp
    ultimately show ?thesis by blast
  qed
qed

lemma re_search_groups:
  assumes "re_search r ng s = Some m"
  shows "length (m_groups m) = ng"
    and "grupos_bien P r \<Longrightarrow> \<forall>g. Some g \<in> set (m_groups m) \<longrightarrow> P g"
    and "fija i r \<Longrightarrow> i < ng \<Longrightarrow> m_groups m ! i \<noteq> None"
proof -
  from assms obtain p' s' st' where
    st': "st' \<in> set (rmatch r (MState p' s' (replicate ng None)))" and m: "m_groups m = caps st'"
    unfolding re_search_def by (blast dest: search_from_Some)
  from rmatch_caps_length[OF st'] m show "length (m_groups m) = ng" by simp
  {
    assume g: "grupos_bien P r"
    have "caps_bien P (MState p' s' (replicate ng None))" by (simp add: caps_bien_def)
    from rmatch_caps_bien[OF g this st'] m
    show "\<forall>g. Some g \<in> set (m_groups m) \<longrightarrow> P g" by (simp add: caps_bien_def)
  }
  {
    assume f: "fija i r" and i: "i < ng"
    from rmatch_fija[OF f _ st'] i m show "m_groups m ! i \<noteq> None" by (simp add: cap_puesta_def)
  }
qed

lemma concat_singletons: "set xss \<subseteq> {[c] | c. P c} \<Longrightarrow> list_all P (concat xss)"
  by (induction xss) auto

lemma lang_star_chr: "w \<in> lang (Star (Chr P)) \<Longrightarrow> list_all P w"
  by (auto dest: concat_singletons)

lemma lang_plus_chr: "w \<in> lang (Plus (Chr P)) \<Longrightarrow> w \<noteq> [] \<and> list_all P w"
  unfolding Plus_def by (auto dest: concat_singletons)

lemma lang_digits: "w \<in> lang digits \<Longrightarrow> digs w"
  unfolding digits_def digs_def by (rule lang_plus_chr)

lemma lang_numero: "w \<in> lang numero \<Longrightarrow> num_form w"
proof -
  assume "w \<in> lang numero"
  then obtain a t where w: "w = a @ t" and a: "a \<in> lang digits"
    and t: "t \<in> lang (Opt (Seq (OneOf ''.,'') digits))"
    unfolding numero_def by auto
  from t have "t = [] \<or> (\<exists>c b. t = c # b \<and> (c = CHR ''.'' \<or> c = CHR '','') \<and> b \<in> lang digits)"
    unfolding Opt_def OneOf_def by auto
  then show ?thesis
  proof
    assume "t = []"
    with w a show ?thesis by (simp add: num_form_def lang_digits)
  next
    assume "\<exists>c b. t = c # b \<and> (c = CHR ''.'' \<or> c = CHR '','') \<and> b \<in> lang digits"
    then obtain c b where "t = c # b" "c = CHR ''.'' \<or> c = CHR '',''" "b \<in> lang digits" by blast
    with w a show ?thesis unfolding num_form_def by (blast dest: lang_digits)
  qed
qed

lemma not_digit_sep: "\<not> is_digit CHR ''.''" "\<not> is_digit CHR '',''"
  by (simp_all add: is_digit_def cp_def)

lemma replace_digits: "list_all is_digit a \<Longrightarrow> replace_char CHR '','' CHR ''.'' a = a"
  unfolding replace_char_def
  by (induction a) (auto simp: not_digit_sep)

lemma py_float_digs: "digs a \<Longrightarrow> py_float a = Some (of_nat (nat_of_digits a))"
proof -
  assume "digs a"
  then have a: "a \<noteq> []" "list_all is_digit a" by (simp_all add: digs_def)
  then have tw: "takeWhile is_digit a = a" and dw: "dropWhile is_digit a = []"
    by (simp_all add: list_all_iff)
  show ?thesis unfolding py_float_def tw dw using a by simp
qed

lemma py_float_point:
  assumes "digs a" "digs b"
  shows "py_float (a @ CHR ''.'' # b) =
           Some (of_nat (nat_of_digits a) + of_nat (nat_of_digits b) / 10 ^ length b)"
proof -
  from assms have a: "a \<noteq> []" "list_all is_digit a" and b: "b \<noteq> []" "list_all is_digit b"
    by (simp_all add: digs_def)
  from a have tw: "takeWhile is_digit (a @ CHR ''.'' # b) = a"
    by (simp add: list_all_iff takeWhile_append2 not_digit_sep)
  from a have dw: "dropWhile is_digit (a @ CHR ''.'' # b) = CHR ''.'' # b"
    by (simp add: list_all_iff dropWhile_append2 not_digit_sep)
  show ?thesis unfolding py_float_def tw dw using a b by simp
qed

lemma float_coma_num_form: "num_form w \<Longrightarrow> \<exists>v. float_coma w = Inr v \<and> 0 \<le> v"
proof -
  assume "num_form w"
  then consider (int) "digs w"
    | (dec) a c b where "w = a @ c # b" "digs a" "digs b" "c = CHR ''.'' \<or> c = CHR '',''"
    unfolding num_form_def by blast
  then show ?thesis
  proof cases
    case int
    then have "replace_char CHR '','' CHR ''.'' w = w" by (simp add: digs_def replace_digits)
    with py_float_digs[OF int] show ?thesis by (simp add: float_coma_def)
  next
    case dec
    then have "replace_char CHR '','' CHR ''.'' w = a @ CHR ''.'' # b"
      using replace_digits[of a] replace_digits[of b]
      by (auto simp: digs_def replace_char_def)
    with py_float_point[OF dec(2,3)] show ?thesis by (simp add: float_coma_def)
  qed
qed

lemma py_int_digs: "digs w \<Longrightarrow> \<exists>n. py_int w = Some n"
  by (simp add: py_int_def digs_def)

lemma grupos_bien_Str [simp]: "grupos_bien P (Str s)"
  by (induction s) (simp_all add: Lit_def)

lemma grupos_bien_StrI [simp]: "grupos_bien P (StrI s)"
  by (induction s) (simp_all add: LitI_def)

lemma grupos_bien_basic [simp]:
  "grupos_bien P (Lit c)" "grupos_bien P (LitI c)" "grupos_bien P (OneOf cs)"
  "grupos_bien P ws" "grupos_bien P ws1" "grupos_bien P digits" "grupos_bien P numero"
  "grupos_bien P a_tilde" "grupos_bien P i_tilde" "grupos_bien P dia" "grupos_bien P letras4"
  by (simp_all add: Lit_def LitI_def OneOf_def ws_def ws1_def digits_def numero_def Plus_def
       Opt_def a_tilde_def i_tilde_def dia_def letras4_def)

lemma grupos_bien_Opt [simp]: "grupos_bien P (Opt r) = grupos_bien P r"
  by (simp add: Opt_def)

lemma grupos_bien_Seqs [simp]: "grupos_bien P (Seqs rs) = list_all (grupos_bien P) rs"
  by (induction rs) simp_all

lemma fija_Seqs [simp]: "fija i (Seqs rs) = list_ex (fija i) rs"
  by (induction rs) simp_all

lemma grupo_numero [simp]: "grupos_bien num_form (Group i numero)"
  using lang_numero by auto

lemma grupo_digits [simp]: "grupos_bien digs (Group i digits)"
  using lang_digits by auto

lemma patron_mg_kg_bien: "grupos_bien num_form patron_mg_kg" "fija 0 patron_mg_kg"
  by (simp_all add: patron_mg_kg_def del: grupos_bien.simps(6))

lemma patron_mg_abs_bien: "grupos_bien num_form patron_mg_abs" "fija 0 patron_mg_abs"
  by (simp_all add: patron_mg_abs_def del: grupos_bien.simps(6))

lemma patron_cada_bien: "grupos_bien digs patron_cada" "fija 0 patron_cada"
  by (simp_all add: patron_cada_def del: grupos_bien.simps(6))

lemma patron_palabra_fija: "fija 0 patron_palabra"
  by (simp add: patron_palabra_def)

lemma patrones_antes_del_rango_bien:
  "list_all (\<lambda>(r, ng, t). grupos_bien num_form r) patrones_antes_del_rango"
  by (simp add: patrones_antes_del_rango_def patron_menos_de_semana_def patron_dosis_bajas_def
        patron_dosis_maxima_semanal_def patron_maximo_semana_def patron_dosis_maxima_diaria_def
        patron_no_exceder_def patron_hasta_def patron_mg_kg_dia_def
      del: grupos_bien.simps(6))

lemma patron_rango_bien:
  "grupos_bien num_form patron_rango" "fija 0 patron_rango" "fija (Suc 0) patron_rango"
  by (simp_all add: patron_rango_def del: grupos_bien.simps(6))

lemma patrones_dosis_max_bien:
  "list_all (\<lambda>(r, ng, t). grupos_bien num_form r) patrones_dosis_max"
  by (simp add: patrones_dosis_max_def patrones_antes_del_rango_bien patron_rango_bien)

lemma re_search_group1:
  assumes "re_search r 1 s = Some m" "fija 0 r"
  shows "\<exists>g. m_groups m = [Some g]"
proof -
  from re_search_groups(1)[OF assms(1)] have l: "length (m_groups m) = 1" .
  from re_search_groups(3)[OF assms(1) assms(2)] have n: "m_groups m ! 0 \<noteq> None" by simp
  from l obtain x where x: "m_groups m = [x]"
    by (cases "m_groups m") auto
  with n show ?thesis by auto
qed

lemma extraer_dosis_ok:
  assumes "grupos_bien num_form r" "fija 0 r"
  shows "\<exists>d. extraer_dosis r t = Inr d \<and> (\<forall>v. d = Some v \<longrightarrow> 0 \<le> v)"
proof (cases "re_search r 1 t")
  case None
  then show ?thesis by (simp add: extraer_dosis_def)
next
  case (Some m)
  from re_search_group1[OF Some assms(2)] obtain g where g: "m_groups m = [Some g]" by blast
  from re_search_groups(2)[OF Some assms(1)] g have "num_form g" by simp
  from float_coma_num_form[OF this] obtain v where "float_coma g = Inr v" "0 \<le> v" by blast
  with Some g show ?thesis by (simp add: extraer_dosis_def group1_str_def group1_def)
qed

lemma extraer_frecuencia_ok: "\<exists>f. extraer_frecuencia t = Inr f"
proof (cases "re_search patron_cada 1 t")
  case None
  then show ?thesis by (simp add: extraer_frecuencia_def)
next
  case (Some m)
  from re_search_group1[OF Some patron_cada_bien(2)] obtain g where g: "m_groups m = [Some g]"
    by blast
  from re_search_groups(2)[OF Some patron_cada_bien(1)] g have "digs g" by simp
  from py_int_digs[OF this] obtain n where "py_int g = Some n" by blast
  with Some g show ?thesis by (simp add: extraer_frecuencia_def group1_def)
qed

lemma extraer_farmaco_ok: "\<exists>f. extraer_farmaco t = Inr f"
proof (cases "re_search patron_palabra 1 t")
  case None
  then show ?thesis by (simp add: extraer_farmaco_def Let_def)
next
  case (Some m)
  from re_search_group1[OF Some patron_palabra_fija] obtain g where g: "m_groups m = [Some g]"
    by blast
  with Some show ?thesis by (simp add: extraer_farmaco_def Let_def group1_str_def group1_def)
qed

lemma grupos_de_subset: "w \<in> set (grupos_de m) \<Longrightarrow> Some w \<in> set (m_groups m)"
  by (auto simp: grupos_de_def split: option.splits if_splits)

lemma buscar_dosis_max_ok:
  "list_all (\<lambda>(r, ng, t). grupos_bien num_form r) ps \<Longrightarrow>
   \<exists>d. buscar_dosis_max ps ev = Inr d \<and> (\<forall>v t. d = Some (v, t) \<longrightarrow> 0 \<le> v)"
proof (induction ps)
  case Nil
  then show ?case by simp
next
  case (Cons x ps)
  obtain r ng tipo where x: "x = (r, ng, tipo)" by (cases x)
  from Cons.prems x have gb: "grupos_bien num_form r" by simp
  from Cons have IH: "\<exists>d. buscar_dosis_max ps ev = Inr d \<and> (\<forall>v t. d = Some (v, t) \<longrightarrow> 0 \<le> v)"
    by simp
  show ?case
  proof (cases "re_search r ng ev")
    case None
    with IH x show ?thesis by simp
  next
    case (Some m)
    show ?thesis
    proof (cases "grupos_de m = []")
      case True
      with IH x Some show ?thesis by simp
    next
      case False
      then have "last (grupos_de m) \<in> set (grupos_de m)" by simp
      then have "Some (last (grupos_de m)) \<in> set (m_groups m)" by (rule grupos_de_subset)
      with re_search_groups(2)[OF Some gb] have "num_form (last (grupos_de m))" by blast
      from float_coma_num_form[OF this] obtain v where
        "float_coma (last (grupos_de m)) = Inr v" "0 \<le> v" by blast
      with x Some False show ?thesis by (simp add: Let_def)
    qed
  qed
qed

lemma ejecutar_pasos_ok: "\<exists>p. ejecutar_pasos rag texto_medico peso_paciente = Inr p"
proof -
  define texto where "texto = (case texto_medico of None \<Rightarrow> [] | Some t \<Rightarrow> t)"
  obtain farmaco where 1: "extraer_farmaco texto = Inr farmaco"
    using extraer_farmaco_ok by blast
  obtain dk where 2: "extraer_dosis patron_mg_kg texto = Inr dk"
    using extraer_dosis_ok[OF patron_mg_kg_bien] by blast
  obtain da where 3: "extraer_dosis patron_mg_abs texto = Inr da"
    using extraer_dosis_ok[OF patron_mg_abs_bien] by blast
  obtain ft fh where 4: "extraer_frecuencia texto = Inr (ft, fh)"
    using extraer_frecuencia_ok by (metis surj_pair)
  obtain dm where 5: "buscar_dosis_max patrones_dosis_max (lower (consultar_rag rag farmaco)) = Inr dm"
    using buscar_dosis_max_ok[OF patrones_dosis_max_bien] by blast
  show ?thesis
    unfolding ejecutar_pasos_def texto_def[symmetric] Let_def
    by (simp add: 1 2 3 4 5)
qed

section \<open>Properties\<close>

subsection \<open>The result structurer\<close>

text \<open>
  C10. In the dictionary that \<open>ProcesarRecetaTool._run\<close> builds, \<open>estado\<close> is
  \<open>"Aprobada"\<close> exactly when \<open>es_tratamiento_aij\<close> is true and \<open>"Alerta"\<close> exactly when it
  is false. It is never \<open>"Rechazada"\<close>, whatever decision is passed in, and the decision
  is stored as given (so a \<open>"RECHAZADA"\<close> decision does not change \<open>estado\<close>).
\<close>

theorem estado_solo_aprobada_o_alerta:
  "(k_estado (ProcesarRecetaTool_run id_paciente medico farmaco peso dosis_mg_kg frecuencia_texto
       frecuencia_horas es_tratamiento_aij razon_decision decision_opt) = ''Aprobada'')
     = es_tratamiento_aij \<and>
   (k_estado (ProcesarRecetaTool_run id_paciente medico farmaco peso dosis_mg_kg frecuencia_texto
       frecuencia_horas es_tratamiento_aij razon_decision decision_opt) = ''Alerta'')
     = (\<not> es_tratamiento_aij) \<and>
   k_estado (ProcesarRecetaTool_run id_paciente medico farmaco peso dosis_mg_kg frecuencia_texto
       frecuencia_horas es_tratamiento_aij razon_decision decision_opt) \<noteq> ''Rechazada'' \<and>
   k_decision (ProcesarRecetaTool_run id_paciente medico farmaco peso dosis_mg_kg frecuencia_texto
       frecuencia_horas es_tratamiento_aij razon_decision decision_opt) = decision_opt"
  by (simp add: ProcesarRecetaTool_run_def)

subsection \<open>The decision\<close>

text \<open>
  The computed dose is never zero, the decision is one of three words and depends only
  on the contraindication search, the extracted maximum and the computed dose, and the
  returned dictionary carries the decision, the reason and the flag of step 6 on both
  paths of step 8.
\<close>

lemma calcular_dosis_no_cero: "calcular_dosis k w a \<noteq> Some 0"
  by (auto simp: calcular_dosis_def truthy_def split: option.splits)

lemma truthy_calcular_dosis: "truthy (calcular_dosis k w a) = (calcular_dosis k w a \<noteq> None)"
  using calcular_dosis_no_cero[of k w a]
  by (cases "calcular_dosis k w a") (auto simp: truthy_def)

lemma decidir_decision:
  "decision (decidir farmaco ev dm dk da w) =
     (if buscar_contraindicacion patrones_contraindicacion ev \<noteq> None then ''RECHAZADA''
      else if truthy (map_option fst dm) then
        (case calcular_dosis dk w da of
           None \<Rightarrow> ''ALERTA''
         | Some d \<Rightarrow> if fst (the dm) \<le> d then ''RECHAZADA'' else ''APROBADA'')
      else ''ALERTA'')"
  unfolding decidir_def Let_def truthy_calcular_dosis
  by (cases dm; cases "calcular_dosis dk w da";
      cases "buscar_contraindicacion patrones_contraindicacion ev") (simp_all add: truthy_def)


lemma generar_resultado_veredicto:
  "k_decision (generar_resultado v idp farmaco w dc dk da ft fh dmg ev) = Some (decision v)"
  "k_razon (k_auditoria (generar_resultado v idp farmaco w dc dk da ft fh dmg ev)) = razon v"
  "k_es_aij (k_auditoria (generar_resultado v idp farmaco w dc dk da ft fh dmg ev)) = es_aij v"
  by (simp_all add: generar_resultado_def resultado_fallback_def ProcesarRecetaTool_run_def Let_def
        split: option.splits)

lemma ejecutar_pasos_campos:
  assumes "ejecutar_pasos rag texto_medico peso_paciente = Inr p"
  shows "v_veredicto p = decidir (v_farmaco p) (v_evidencia_texto p) (v_dosis_max p)
           (v_dosis_mg_kg p) (v_dosis_absoluta p) peso_paciente"
    and "v_dosis_calculada p = calcular_dosis (v_dosis_mg_kg p) peso_paciente (v_dosis_absoluta p)"
    and "v_evidencia_texto p = consultar_rag rag (v_farmaco p)"
    and "buscar_dosis_max patrones_dosis_max (lower (v_evidencia_texto p)) = Inr (v_dosis_max p)"
  using assms unfolding ejecutar_pasos_def Let_def
  by (auto split: sum.splits prod.splits)

lemma ejecutar_validacion_medica_pasos:
  assumes "ejecutar_pasos rag texto_medico peso_paciente = Inr p"
  shows "\<exists>r. ejecutar_validacion_medica rag texto_medico peso_paciente id_paciente = Inr r \<and>
             k_decision r = Some (decision (v_veredicto p)) \<and>
             k_razon (k_auditoria r) = razon (v_veredicto p) \<and>
             k_es_aij (k_auditoria r) = es_aij (v_veredicto p)"
  using assms by (simp add: ejecutar_validacion_medica_def generar_resultado_veredicto)










subsection \<open>Contraindications\<close>

text \<open>
  Where a search reports a match, the matched text is a word of the pattern's language
  and stands at the reported position; the contraindication loop returns the window
  around the match of the first pattern, in list order, that matches.
\<close>

lemma search_from_pos:
  "search_from r ng p s i = Some m \<Longrightarrow>
     \<exists>k post. k \<le> length s \<and> m_start m = i + k \<and> m_text m \<in> lang r \<and>
              drop k s = m_text m @ post"
proof (induction s arbitrary: p i)
  case Nil
  show ?case
  proof (cases "rmatch r (MState p [] (replicate ng None))")
    case Nil
    with Nil.prems show ?thesis by simp
  next
    case (Cons st' sts)
    then have "st' \<in> set (rmatch r (MState p [] (replicate ng None)))" by simp
    from rmatch_lang[OF this] obtain w where w: "w \<in> lang r" "[] = w @ rest st'" by auto
    with Cons Nil.prems show ?thesis by auto
  qed
next
  case (Cons c cs)
  show ?case
  proof (cases "rmatch r (MState p (c # cs) (replicate ng None))")
    case Nil
    with Cons.prems have "search_from r ng (Some c) cs (Suc i) = Some m" by simp
    from Cons.IH[OF this] obtain k post where
      k: "k \<le> length cs" "m_start m = Suc i + k" "m_text m \<in> lang r" "drop k cs = m_text m @ post"
      by blast
    then have "Suc k \<le> length (c # cs)" "m_start m = i + Suc k" "drop (Suc k) (c # cs) = m_text m @ post"
      by simp_all
    with k(3) show ?thesis by blast
  next
    case (Cons st' sts)
    then have "st' \<in> set (rmatch r (MState p (c # cs) (replicate ng None)))" by simp
    from rmatch_lang[OF this] obtain w where w: "w \<in> lang r" "c # cs = w @ rest st'" by auto
    from w(2) have tk: "take (length (c # cs) - length (rest st')) (c # cs) = w"
      by (metis append_eq_conv_conj length_append add_diff_cancel_right')
    from Cons Cons.prems have m: "m_start m = i" "m_text m = take (length (c # cs) - length (rest st')) (c # cs)"
      by auto
    from m tk w have "0 \<le> length (c # cs)" "m_start m = i + 0" "m_text m \<in> lang r"
      "drop 0 (c # cs) = m_text m @ rest st'" by simp_all
    then show ?thesis by blast
  qed
qed

lemma re_search_pos:
  assumes "re_search r ng s = Some m"
  shows "m_start m \<le> length s" and "m_text m \<in> lang r"
    and "take (length (m_text m)) (drop (m_start m) s) = m_text m"
proof -
  from search_from_pos[OF assms[unfolded re_search_def]] obtain k post where
    k: "k \<le> length s" "m_start m = k" "m_text m \<in> lang r" "drop k s = m_text m @ post"
    by auto
  from k show "m_start m \<le> length s" "m_text m \<in> lang r" by simp_all
  from k show "take (length (m_text m)) (drop (m_start m) s) = m_text m" by simp
qed





subsection \<open>The maximum dose of a range\<close>

text \<open>
  Every state the matcher returns lies behind a word that the pattern can consume, with
  the captures that go with it; so does every match that a search reports.
\<close>

inductive_cases sem_SeqE: "sem (Seq r1 r2) w c c'"
inductive_cases sem_GroupE: "sem (Group i r) w c c'"
inductive_cases sem_AltE: "sem (Alt r1 r2) w c c'"
inductive_cases sem_EpsE: "sem Eps w c c'"

lemma star_iter_sem:
  assumes f: "\<And>st st'. st' \<in> set (rmatch r st) \<Longrightarrow>
                \<exists>w. rest st = w @ rest st' \<and> sem r w (caps st) (caps st')"
  shows "st' \<in> set (star_iter (rmatch r) n st) \<Longrightarrow>
           \<exists>w. rest st = w @ rest st' \<and> sem (Star r) w (caps st) (caps st')"
proof (induction n arbitrary: st)
  case 0
  then have "rest st = [] @ rest st'" "caps st' = caps st" by simp_all
  then show ?case using sem_Star0 by metis
next
  case (Suc n)
  from Suc.prems consider (stop) "st' = st"
    | (more) st1 where "st1 \<in> set (rmatch r st)" "st' \<in> set (star_iter (rmatch r) n st1)"
    by (auto split: if_splits)
  then show ?case
  proof cases
    case stop
    then have "rest st = [] @ rest st'" "caps st' = caps st" by simp_all
    then show ?thesis using sem_Star0 by metis
  next
    case more
    from f[OF more(1)] obtain u where u: "rest st = u @ rest st1" "sem r u (caps st) (caps st1)"
      by blast
    from Suc.IH[OF more(2)] obtain v where
      v: "rest st1 = v @ rest st'" "sem (Star r) v (caps st1) (caps st')" by blast
    from u v have "rest st = (u @ v) @ rest st'" by simp
    moreover from u(2) v(2) have "sem (Star r) (u @ v) (caps st) (caps st')" by (rule sem_Star1)
    ultimately show ?thesis by blast
  qed
qed

lemma rmatch_sem:
  "st' \<in> set (rmatch r st) \<Longrightarrow> \<exists>w. rest st = w @ rest st' \<and> sem r w (caps st) (caps st')"
proof (induction r arbitrary: st st')
  case Eps
  then show ?case by (auto intro: sem_Eps)
next
  case (Chr P)
  show ?case
  proof (cases "rest st")
    case Nil
    with Chr show ?thesis by simp
  next
    case (Cons x xs)
    with Chr have px: "P x" and st': "st' = MState (Some x) xs (caps st)"
      by (auto split: if_splits)
    from px have "sem (Chr P) [x] (caps st) (caps st)" by (rule sem_Chr)
    with Cons st' show ?thesis by auto
  qed
next
  case (Seq r1 r2)
  from Seq.prems obtain st1 where 1: "st1 \<in> set (rmatch r1 st)" and 2: "st' \<in> set (rmatch r2 st1)"
    by auto
  from Seq.IH(1)[OF 1] obtain u where u: "rest st = u @ rest st1" "sem r1 u (caps st) (caps st1)"
    by blast
  from Seq.IH(2)[OF 2] obtain v where v: "rest st1 = v @ rest st'" "sem r2 v (caps st1) (caps st')"
    by blast
  from u v have "rest st = (u @ v) @ rest st'" by simp
  moreover from u(2) v(2) have "sem (Seq r1 r2) (u @ v) (caps st) (caps st')" by (rule sem_Seq)
  ultimately show ?case by blast
next
  case (Alt r1 r2)
  from Alt.prems have "st' \<in> set (rmatch r1 st) \<or> st' \<in> set (rmatch r2 st)" by simp
  then show ?case
  proof
    assume "st' \<in> set (rmatch r1 st)"
    from Alt.IH(1)[OF this] show ?thesis by (blast intro: sem_Alt1)
  next
    assume "st' \<in> set (rmatch r2 st)"
    from Alt.IH(2)[OF this] show ?thesis by (blast intro: sem_Alt2)
  qed
next
  case (Star r)
  from Star.prems have "st' \<in> set (star_iter (rmatch r) (length (rest st)) st)" by simp
  from star_iter_sem[OF Star.IH this] show ?case .
next
  case (Group i r)
  from Group.prems obtain st1 where 1: "st1 \<in> set (rmatch r st)"
    and 2: "st' = set_cap i (take (length (rest st) - length (rest st1)) (rest st)) st1"
    by auto
  from Group.IH[OF 1] obtain w where w: "rest st = w @ rest st1" "sem r w (caps st) (caps st1)"
    by blast
  from w(1) have tk: "take (length (rest st) - length (rest st1)) (rest st) = w" by simp
  from w(2) have "sem (Group i r) w (caps st) ((caps st1)[i := Some w])" by (rule sem_Group)
  with w(1) show ?case unfolding 2 tk by (auto simp: set_cap_def)
next
  case (NegLook r)
  then show ?case by (auto split: if_splits intro: sem_NegLook)
next
  case WordB
  then show ?case by (auto split: if_splits intro: sem_WordB)
qed

lemma sem_sin_grupos: "sem r w c c' \<Longrightarrow> sin_grupos r \<Longrightarrow> c' = c \<and> w \<in> lang r"
proof (induction rule: sem.induct)
  case (sem_Star0 r c)
  have "[] = concat ([] :: string list) \<and> set ([] :: string list) \<subseteq> lang r" by simp
  then have "[] \<in> lang (Star r)" unfolding lang.simps by blast
  then show ?case by simp
next
  case (sem_Star1 r u c c1 v c2)
  then have u: "u \<in> lang r" and c1: "c1 = c" and v: "v \<in> lang (Star r)" and c2: "c2 = c1" by simp_all
  from v obtain xss where x: "v = concat xss" "set xss \<subseteq> lang r" by auto
  with u have "u @ v = concat (u # xss) \<and> set (u # xss) \<subseteq> lang r" by simp
  then have "u @ v \<in> lang (Star r)" unfolding lang.simps by blast
  with c1 c2 show ?case by simp
qed auto

lemma search_from_sem:
  "search_from r ng p s i = Some m \<Longrightarrow>
     \<exists>k post. k \<le> length s \<and> m_start m = i + k \<and> drop k s = m_text m @ post \<and>
              sem r (m_text m) (replicate ng None) (m_groups m)"
proof (induction s arbitrary: p i)
  case Nil
  show ?case
  proof (cases "rmatch r (MState p [] (replicate ng None))")
    case Nil
    with Nil.prems show ?thesis by simp
  next
    case (Cons st' sts)
    then have "st' \<in> set (rmatch r (MState p [] (replicate ng None)))" by simp
    from rmatch_sem[OF this] obtain w where
      w: "[] = w @ rest st'" "sem r w (replicate ng None) (caps st')" by auto
    with Cons Nil.prems show ?thesis by auto
  qed
next
  case (Cons c cs)
  show ?case
  proof (cases "rmatch r (MState p (c # cs) (replicate ng None))")
    case Nil
    with Cons.prems have "search_from r ng (Some c) cs (Suc i) = Some m" by simp
    from Cons.IH[OF this] obtain k post where
      k: "k \<le> length cs" "m_start m = Suc i + k" "drop k cs = m_text m @ post"
         "sem r (m_text m) (replicate ng None) (m_groups m)"
      by blast
    then have "Suc k \<le> length (c # cs)" "m_start m = i + Suc k" "drop (Suc k) (c # cs) = m_text m @ post"
      by simp_all
    with k(4) show ?thesis by blast
  next
    case (Cons st' sts)
    then have "st' \<in> set (rmatch r (MState p (c # cs) (replicate ng None)))" by simp
    from rmatch_sem[OF this] obtain w where
      w: "c # cs = w @ rest st'" "sem r w (replicate ng None) (caps st')" by auto
    from w(1) have tk: "take (length (c # cs) - length (rest st')) (c # cs) = w"
      by (metis append_eq_conv_conj length_append add_diff_cancel_right')
    from Cons Cons.prems have m: "m_start m = i"
      "m_text m = take (length (c # cs) - length (rest st')) (c # cs)" "m_groups m = caps st'"
      by auto
    from m tk w have "0 \<le> length (c # cs)" "m_start m = i + 0"
      "drop 0 (c # cs) = m_text m @ rest st'" "sem r (m_text m) (replicate ng None) (m_groups m)"
      by simp_all
    then show ?thesis by blast
  qed
qed

lemma re_search_sem:
  "re_search r ng s = Some m \<Longrightarrow> sem r (m_text m) (replicate ng None) (m_groups m)"
  unfolding re_search_def by (blast dest: search_from_sem)

text \<open>
  A match of the range pattern is a number, a hyphen, a second number, \<open>mg\<close>, a slash
  and \<open>semana\<close>, with optional white space between them; its two groups are the two
  numbers.
\<close>

lemma lang_Str [simp]: "lang (Str s) = {s}"
  by (induction s) (auto simp: Lit_def)

lemma lang_Lit [simp]: "lang (Lit c) = {[c]}"
  by (auto simp: Lit_def)

lemma lang_ws: "w \<in> lang ws \<Longrightarrow> list_all is_space w"
  unfolding ws_def by (rule lang_star_chr)

lemma sin_grupos_Str [simp]: "sin_grupos (Str s)"
  by (induction s) (simp_all add: Lit_def)

lemma sin_grupos_basic [simp]:
  "sin_grupos (Lit c)" "sin_grupos ws" "sin_grupos numero"
  by (simp_all add: Lit_def ws_def numero_def digits_def Plus_def Opt_def OneOf_def)

lemma sem_numero: "sem numero w c c' \<Longrightarrow> c' = c \<and> num_form w"
  by (auto dest: sem_sin_grupos lang_numero)

lemma sem_ws: "sem ws w c c' \<Longrightarrow> c' = c \<and> list_all is_space w"
  by (auto dest: sem_sin_grupos lang_ws)

lemma sem_Lit: "sem (Lit x) w c c' \<Longrightarrow> c' = c \<and> w = [x]"
  by (auto dest: sem_sin_grupos)

lemma sem_cola_rango:
  assumes "sem (Seqs [ws, Str ''mg'', ws, Lit CHR ''/'', ws, Str ''semana'']) w c c'"
  shows "c' = c \<and> (\<exists>s3 s4 s5. w = s3 @ ''mg'' @ s4 @ ''/'' @ s5 @ ''semana'' \<and>
           list_all is_space s3 \<and> list_all is_space s4 \<and> list_all is_space s5)"
proof -
  from sem_sin_grupos[OF assms] have c: "c' = c"
    and w: "w \<in> lang (Seqs [ws, Str ''mg'', ws, Lit CHR ''/'', ws, Str ''semana''])" by simp_all
  from w obtain s3 s4 s5 where "s3 \<in> lang ws" "s4 \<in> lang ws" "s5 \<in> lang ws"
    "w = s3 @ ''mg'' @ s4 @ ''/'' @ s5 @ ''semana''"
    by auto
  with c show ?thesis by (blast dest: lang_ws)
qed

lemma sem_patron_rango:
  assumes "sem patron_rango w c c'"
  shows "\<exists>N M s1 s2 s3 s4 s5.
           w = N @ s1 @ ''-'' @ s2 @ M @ s3 @ ''mg'' @ s4 @ ''/'' @ s5 @ ''semana'' \<and>
           num_form N \<and> num_form M \<and> list_all is_space s1 \<and> list_all is_space s2 \<and>
           list_all is_space s3 \<and> list_all is_space s4 \<and> list_all is_space s5 \<and>
           c' = c[0 := Some N, Suc 0 := Some M]"
proof -
  from assms have "sem (Seq (Group 0 numero) (Seq ws (Seq (Lit CHR ''-'') (Seq ws
      (Seq (Group 1 numero) (Seqs [ws, Str ''mg'', ws, Lit CHR ''/'', ws, Str ''semana''])))))) w c c'"
    by (simp add: patron_rango_def)
  then obtain N r1 c1 where 1: "w = N @ r1" "sem (Group 0 numero) N c c1"
    and t1: "sem (Seq ws (Seq (Lit CHR ''-'') (Seq ws
      (Seq (Group 1 numero) (Seqs [ws, Str ''mg'', ws, Lit CHR ''/'', ws, Str ''semana'']))))) r1 c1 c'"
    by (auto elim: sem_SeqE)
  from 1(2) have n: "num_form N" "c1 = c[0 := Some N]"
    by (auto elim!: sem_GroupE dest: sem_numero)
  from t1 obtain s1 r2 c2 where 2: "r1 = s1 @ r2" "sem ws s1 c1 c2"
    and t2: "sem (Seq (Lit CHR ''-'') (Seq ws
      (Seq (Group 1 numero) (Seqs [ws, Str ''mg'', ws, Lit CHR ''/'', ws, Str ''semana''])))) r2 c2 c'"
    by (auto elim: sem_SeqE)
  from t2 obtain g r3 c3 where 3: "r2 = g @ r3" "sem (Lit CHR ''-'') g c2 c3"
    and t3: "sem (Seq ws
      (Seq (Group 1 numero) (Seqs [ws, Str ''mg'', ws, Lit CHR ''/'', ws, Str ''semana'']))) r3 c3 c'"
    by (auto elim: sem_SeqE)
  from t3 obtain s2 r4 c4 where 4: "r3 = s2 @ r4" "sem ws s2 c3 c4"
    and t4: "sem (Seq (Group 1 numero)
       (Seqs [ws, Str ''mg'', ws, Lit CHR ''/'', ws, Str ''semana''])) r4 c4 c'"
    by (auto elim: sem_SeqE)
  from t4 obtain M r5 c5 where 5: "r4 = M @ r5" "sem (Group 1 numero) M c4 c5"
    and t5: "sem (Seqs [ws, Str ''mg'', ws, Lit CHR ''/'', ws, Str ''semana'']) r5 c5 c'"
    by (auto elim: sem_SeqE)
  from 2(2) 3(2) 4(2) have s: "list_all is_space s1" "list_all is_space s2" "g = ''-''"
    "c4 = c1" by (auto dest: sem_ws sem_Lit)
  from 5(2) have m: "num_form M" "c5 = c4[1 := Some M]"
    by (auto elim!: sem_GroupE dest: sem_numero)
  from sem_cola_rango[OF t5] obtain s3 s4 s5 where
    c: "c' = c5" "r5 = s3 @ ''mg'' @ s4 @ ''/'' @ s5 @ ''semana''"
       "list_all is_space s3" "list_all is_space s4" "list_all is_space s5" by blast
  from 1(1) 2(1) 3(1) 4(1) 5(1) s(3) c(2)
  have "w = N @ s1 @ ''-'' @ s2 @ M @ s3 @ ''mg'' @ s4 @ ''/'' @ s5 @ ''semana''" by simp
  moreover from n m s(4) c(1) have "c' = c[0 := Some N, Suc 0 := Some M]" by simp
  ultimately show ?thesis using n(1) m(1) s(1,2) c(3,4,5) by blast
qed

lemma buscar_dosis_max_saltar:
  "\<forall>(r, ng, t)\<in>set ps1. re_search r ng ev = None \<Longrightarrow>
   buscar_dosis_max (ps1 @ ps2) ev = buscar_dosis_max ps2 ev"
  by (induction ps1) auto

lemma num_form_no_vacio: "num_form w \<Longrightarrow> w \<noteq> []"
  by (auto simp: num_form_def digs_def)

text \<open>
  C3. When none of the eight patterns before the range pattern matches the lower-cased
  evidence and the range pattern does, the matched text is \<open>N-M mg/semana\<close> for two
  numbers \<open>N\<close> and \<open>M\<close> (white space allowed around the hyphen, before \<open>mg\<close> and
  around the slash), and the extracted maximum is the value of the second number \<open>M\<close>,
  with the text of a weekly limit (\<open>mg/semanal\<close>).
\<close>

theorem rango_toma_el_limite_superior:
  assumes "\<forall>(r, ng, t)\<in>set patrones_antes_del_rango. re_search r ng (lower evidencia_texto) = None"
    and "re_search patron_rango 2 (lower evidencia_texto) = Some m"
  shows "\<exists>N M s1 s2 s3 s4 s5 v.
           m_text m = N @ s1 @ ''-'' @ s2 @ M @ s3 @ ''mg'' @ s4 @ ''/'' @ s5 @ ''semana'' \<and>
           take (length (m_text m)) (drop (m_start m) (lower evidencia_texto)) = m_text m \<and>
           num_form N \<and> num_form M \<and> list_all is_space (s1 @ s2 @ s3 @ s4 @ s5) \<and>
           m_groups m = [Some N, Some M] \<and> float_coma M = Inr v \<and>
           buscar_dosis_max patrones_dosis_max (lower evidencia_texto)
             = Inr (Some (v, repr_float v @ '' mg/semanal''))"
proof -
  from sem_patron_rango[OF re_search_sem[OF assms(2)]] obtain N M s1 s2 s3 s4 s5 where
    d: "m_text m = N @ s1 @ ''-'' @ s2 @ M @ s3 @ ''mg'' @ s4 @ ''/'' @ s5 @ ''semana''"
       "num_form N" "num_form M" "list_all is_space s1" "list_all is_space s2"
       "list_all is_space s3" "list_all is_space s4" "list_all is_space s5"
       "m_groups m = (replicate 2 None)[0 := Some N, Suc 0 := Some M]" by blast
  have "replicate 2 None = [None, None :: string option]" by (simp add: numeral_2_eq_2)
  with d(9) have g: "m_groups m = [Some N, Some M]" by simp
  from d(2,3) have ne: "N \<noteq> []" "M \<noteq> []" by (simp_all add: num_form_no_vacio)
  with g have gd: "grupos_de m = [N, M]" by (simp add: grupos_de_def)
  from float_coma_num_form[OF d(3)] obtain v where v: "float_coma M = Inr v" by blast
  have "buscar_dosis_max patrones_dosis_max (lower evidencia_texto)
          = buscar_dosis_max [(patron_rango, 2, ''semanal'')] (lower evidencia_texto)"
    unfolding patrones_dosis_max_def by (rule buscar_dosis_max_saltar[OF assms(1)])
  also have "\<dots> = Inr (Some (v, repr_float v @ '' mg/semanal''))"
    using assms(2) gd v by (simp add: Let_def dosis_max_texto_de_def)
  finally have b: "buscar_dosis_max patrones_dosis_max (lower evidencia_texto)
          = Inr (Some (v, repr_float v @ '' mg/semanal''))" .
  note pos = re_search_pos(3)[OF assms(2)]
  from d(4-8) have sp: "list_all is_space (s1 @ s2 @ s3 @ s4 @ s5)" by simp
  from d(1) pos d(2,3) sp g v b show ?thesis by blast
qed

text \<open>Evidence with "10-20 mg/semana" gives 20.\<close>

lemma rango_ejemplo:
  "\<forall>(r, ng, t)\<in>set patrones_antes_del_rango. re_search r ng (lower ''Dosis: 10-20 mg/semana'') = None"
  "re_search patron_rango 2 (lower ''Dosis: 10-20 mg/semana'')
     = Some \<lparr>m_start = 7, m_text = ''10-20 mg/semana'', m_groups = [Some ''10'', Some ''20'']\<rparr>"
  "float_coma ''20'' = Inr 20" "repr_float 20 = ''20.0''"
  by code_simp+

theorem rango_toma_el_limite_superior_witness:
  "list_all (\<lambda>(r, ng, t). re_search r ng (lower ''Dosis: 10-20 mg/semana'') = None)
     patrones_antes_del_rango \<and>
   re_search patron_rango 2 (lower ''Dosis: 10-20 mg/semana'')
     = Some \<lparr>m_start = 7, m_text = ''10-20 mg/semana'', m_groups = [Some ''10'', Some ''20'']\<rparr> \<and>
   buscar_dosis_max patrones_dosis_max (lower ''Dosis: 10-20 mg/semana'')
     = Inr (Some (20, ''20.0 mg/semanal''))"
  using rango_toma_el_limite_superior[OF rango_ejemplo(1,2)] rango_ejemplo
  by (auto simp: list_all_iff)

subsection \<open>A dose per kg without a weight\<close>

text \<open>
  The extracted fields are what the extraction steps return on the text, and a
  retrieval tool that always gives the same answer makes that answer the evidence.
\<close>

lemma ejecutar_pasos_extraccion:
  assumes "ejecutar_pasos rag texto_medico peso_paciente = Inr p"
  shows "extraer_farmaco (case texto_medico of None \<Rightarrow> [] | Some t \<Rightarrow> t) = Inr (v_farmaco p)"
    and "extraer_dosis patron_mg_kg (case texto_medico of None \<Rightarrow> [] | Some t \<Rightarrow> t)
           = Inr (v_dosis_mg_kg p)"
    and "extraer_dosis patron_mg_abs (case texto_medico of None \<Rightarrow> [] | Some t \<Rightarrow> t)
           = Inr (v_dosis_absoluta p)"
  using assms unfolding ejecutar_pasos_def Let_def
  by (auto split: sum.splits prod.splits)

lemma consultar_variantes_fijo:
  "mejor = [] \<or> mejor = ev \<Longrightarrow>
   consultar_variantes (rag_fijo ev) farmaco ns mejor = Inr (if ns = [] then mejor else ev)"
  by (induction ns arbitrary: mejor) (auto simp: rag_fijo_def)

lemma nombres_buscar_no_vacio: "nombres_buscar farmaco \<noteq> []"
  by (simp add: nombres_buscar_def variantes_farmaco_def)

lemma consultar_rag_fijo: "consultar_rag (rag_fijo ev) farmaco = ev"
  by (simp add: consultar_rag_def consultar_variantes_fijo nombres_buscar_no_vacio)

text \<open>
  C4, as amended. When a dose per kg was extracted, the weight is \<open>None\<close> or zero and
  no absolute dose was extracted, the computed dose is \<open>None\<close>, the function returns a
  dictionary (it does not raise), and the decision is \<open>ALERTA\<close> unless a
  contraindication pattern matches the evidence, in which case it is \<open>RECHAZADA\<close>; it
  is never \<open>APROBADA\<close>.
\<close>

theorem peso_ausente_no_aprueba:
  assumes "ejecutar_pasos rag texto_medico peso_paciente = Inr p"
    and "v_dosis_mg_kg p = Some k"
    and "peso_paciente = None \<or> peso_paciente = Some 0"
    and "v_dosis_absoluta p = None"
  shows "v_dosis_calculada p = None \<and>
         (\<exists>r. ejecutar_validacion_medica rag texto_medico peso_paciente id_paciente = Inr r \<and>
              k_decision r =
                Some (if buscar_contraindicacion patrones_contraindicacion (v_evidencia_texto p) = None
                      then ''ALERTA'' else ''RECHAZADA''))"
proof -
  note c = ejecutar_pasos_campos(1,2)[OF assms(1)]
  from assms(3) have w: "\<not> truthy peso_paciente" by (auto simp: truthy_def)
  with assms(4) have dc: "calcular_dosis (v_dosis_mg_kg p) peso_paciente (v_dosis_absoluta p) = None"
    by (simp add: calcular_dosis_def truthy_def)
  then have 1: "v_dosis_calculada p = None" by (simp add: c(2))
  have "decision (v_veredicto p) =
          (if buscar_contraindicacion patrones_contraindicacion (v_evidencia_texto p) = None
           then ''ALERTA'' else ''RECHAZADA'')"
    unfolding c(1) decidir_decision dc by simp
  with ejecutar_validacion_medica_pasos[OF assms(1), of id_paciente] 1 show ?thesis by auto
qed

text \<open>Runs on "Ibuprofeno 10 mg/kg": without a weight, and with weight zero against
  evidence that holds a contraindication.\<close>

lemma ibuprofeno_por_kg:
  "extraer_dosis patron_mg_kg ''Ibuprofeno 10 mg/kg'' = Inr (Some 10)"
  "extraer_dosis patron_mg_abs ''Ibuprofeno 10 mg/kg'' = Inr None"
  by code_simp+

lemma evidencia_hasta_25:
  "buscar_contraindicacion patrones_contraindicacion ''hasta 25 mg'' = None"
  by code_simp

lemma evidencia_contraindicado:
  "buscar_contraindicacion patrones_contraindicacion ''contraindicado en aij. hasta 25 mg''
     = Some ''contraindicado en aij. hasta 25 mg''"
  by code_simp

theorem peso_ausente_no_aprueba_witness:
  "\<exists>p r. ejecutar_pasos (rag_fijo ''hasta 25 mg'') (Some ''Ibuprofeno 10 mg/kg'') None = Inr p \<and>
         v_dosis_mg_kg p = Some 10 \<and> v_dosis_absoluta p = None \<and> v_dosis_calculada p = None \<and>
         ejecutar_validacion_medica (rag_fijo ''hasta 25 mg'') (Some ''Ibuprofeno 10 mg/kg'') None
           ''P_001'' = Inr r \<and>
         k_decision r = Some ''ALERTA''"
proof -
  obtain p where p: "ejecutar_pasos (rag_fijo ''hasta 25 mg'') (Some ''Ibuprofeno 10 mg/kg'') None = Inr p"
    using ejecutar_pasos_ok by blast
  from ejecutar_pasos_extraccion(2,3)[OF p] ibuprofeno_por_kg
  have k: "v_dosis_mg_kg p = Some 10" and a: "v_dosis_absoluta p = None" by simp_all
  from ejecutar_pasos_campos(3)[OF p] have "v_evidencia_texto p = ''hasta 25 mg''"
    by (simp add: consultar_rag_fijo)
  with evidencia_hasta_25
  have e: "buscar_contraindicacion patrones_contraindicacion (v_evidencia_texto p) = None" by simp
  from peso_ausente_no_aprueba[OF p k _ a, of "''P_001''"] e p k a show ?thesis by auto
qed

text \<open>
  C4 as stated fails when the evidence holds a contraindication: the dose per kg is
  extracted, the weight is zero, there is no absolute dose, and the decision is
  \<open>RECHAZADA\<close>, not \<open>ALERTA\<close>.
\<close>

theorem peso_ausente_no_aprueba_counterexample:
  "map_sum id v_dosis_mg_kg
     (ejecutar_pasos (rag_fijo ''contraindicado en aij. hasta 25 mg'') (Some ''Ibuprofeno 10 mg/kg'')
        (Some 0)) = Inr (Some 10) \<and>
   map_sum id v_dosis_absoluta
     (ejecutar_pasos (rag_fijo ''contraindicado en aij. hasta 25 mg'') (Some ''Ibuprofeno 10 mg/kg'')
        (Some 0)) = Inr None \<and>
   map_sum id k_decision
     (ejecutar_validacion_medica (rag_fijo ''contraindicado en aij. hasta 25 mg'')
        (Some ''Ibuprofeno 10 mg/kg'') (Some 0) ''P_001'') = Inr (Some ''RECHAZADA'')"
proof -
  obtain p where p: "ejecutar_pasos (rag_fijo ''contraindicado en aij. hasta 25 mg'')
      (Some ''Ibuprofeno 10 mg/kg'') (Some 0) = Inr p"
    using ejecutar_pasos_ok by blast
  from ejecutar_pasos_extraccion(2,3)[OF p] ibuprofeno_por_kg
  have k: "v_dosis_mg_kg p = Some 10" and a: "v_dosis_absoluta p = None" by simp_all
  from ejecutar_pasos_campos(3)[OF p]
  have "v_evidencia_texto p = ''contraindicado en aij. hasta 25 mg''"
    by (simp add: consultar_rag_fijo)
  with evidencia_contraindicado
  have "buscar_contraindicacion patrones_contraindicacion (v_evidencia_texto p) \<noteq> None" by simp
  then have "decision (v_veredicto p) = ''RECHAZADA''"
    unfolding ejecutar_pasos_campos(1)[OF p] decidir_decision by simp
  with ejecutar_validacion_medica_pasos[OF p, of "''P_001''"] p k a show ?thesis by auto
qed

text \<open>
  The dose string of the returned dictionary is a different matter: with a weight of
  zero the structurer multiplies again and prints a dose of zero.
\<close>

lemma peso_cero_muestra_cero:
  "k_dosis_calculada (k_analisis (ProcesarRecetaTool_run ''P_001'' ''Sistema IA'' ''Ibuprofeno'' 0
      (Some 10) [] None True [] (Some ''ALERTA''))) = ''0 mg''"
  by code_simp

subsection \<open>The dose calculator\<close>




subsection \<open>The dose string\<close>

lemma str_of_nat_digitos: "list_all is_digit (str_of_nat n)"
proof (induction n rule: str_of_nat.induct)
  case (1 n)
  have d: "\<And>k::nat. k < 10 \<Longrightarrow> is_digit (char_of (48 + k))"
    by (simp add: is_digit_def cp_def)
  show ?case
  proof (cases "n < 10")
    case True
    then show ?thesis by (subst str_of_nat.simps) (simp add: d)
  next
    case False
    with 1 have "list_all is_digit (str_of_nat (n div 10))" by simp
    with False show ?thesis by (subst str_of_nat.simps) (simp add: d)
  qed
qed

lemma punto_no_digito: "list_all is_digit s \<Longrightarrow> CHR ''.'' \<notin> set s"
  by (auto simp: list_all_iff is_digit_def cp_def)

text \<open>
  C7 does not hold of \<open>ProcesarRecetaTool._run\<close>: its dose string never has a decimal
  point, whatever the weight and the dose per kg. For 0.5 mg/kg and 25 kg, a dose of
  12.5 mg, it reads "12 mg", where \<open>AgenteMatematico.calcular_dosis_exactas\<close> prints
  "12.5 mg" for the same product.
\<close>

theorem dosis_str_sin_decimales:
  "CHR ''.'' \<notin> set (k_dosis_calculada (k_analisis (ProcesarRecetaTool_run id_paciente medico farmaco
       peso_paciente (Some dosis_mg_kg) frecuencia_texto frecuencia_horas es_tratamiento_aij
       razon_decision decision_opt))) \<and>
   k_dosis_calculada (k_analisis (ProcesarRecetaTool_run ''P_001'' ''Sistema IA'' ''Metotrexato''
       25 (Some (1 / 2)) ''semanal'' (Some 168) True [] (Some ''APROBADA''))) = ''12 mg'' \<and>
   formato_matematico (25 * (1 / 2)) = ''12.5 mg''"
proof -
  have 1: "CHR ''.'' \<notin> set (k_dosis_calculada (k_analisis (ProcesarRecetaTool_run id_paciente medico
       farmaco peso_paciente (Some dosis_mg_kg) frecuencia_texto frecuencia_horas es_tratamiento_aij
       razon_decision decision_opt)))"
    using punto_no_digito[OF str_of_nat_digitos]
    by (simp add: ProcesarRecetaTool_run_def Let_def fmt_0f_def)
  have 2: "k_dosis_calculada (k_analisis (ProcesarRecetaTool_run ''P_001'' ''Sistema IA'' ''Metotrexato''
       25 (Some (1 / 2)) ''semanal'' (Some 168) True [] (Some ''APROBADA''))) = ''12 mg''"
    by code_simp
  have 3: "formato_matematico (25 * (1 / 2)) = ''12.5 mg''" by code_simp
  from 1 2 3 show ?thesis by blast
qed

subsection \<open>The answer of the language model\<close>

text \<open>
  \<open>find\<close> and \<open>rfind\<close> give the first and the last position of a brace, and the slice
  between them is the text from the first opening brace up to and including the last
  closing brace. Without an opening brace the slice is empty or the single closing
  brace at the end of the answer; without a closing brace it is empty.
\<close>

lemma py_find_notin: "c \<notin> set s \<Longrightarrow> py_find c s = - 1"
  by (induction s) (auto simp: Let_def)


lemma py_rfind_notin: "c \<notin> set s \<Longrightarrow> py_rfind c s = - 1"
  by (induction s) (auto simp: Let_def)

lemma py_rfind_last: "c \<notin> set post \<Longrightarrow> py_rfind c (pre @ c # post) = int (length pre)"
  by (induction pre) (auto simp: Let_def py_rfind_notin)



lemma texto_sin_llave_abierta:
  assumes "CHR ''{'' \<notin> set r"
  shows "py_slice r (py_find CHR ''{'' r) (py_rfind CHR ''}'' r + 1) \<in> {[], ''}''}"
proof (cases "CHR ''}'' \<in> set r")
  case False
  with assms show ?thesis by (simp add: py_find_notin py_rfind_notin py_slice_def Let_def)
next
  case True
  then obtain a b where r: "r = a @ CHR ''}'' # b" "CHR ''}'' \<notin> set b"
    by (meson split_list_last)
  have rf: "py_rfind CHR ''}'' r + 1 = int (length a) + 1"
    unfolding r(1) using py_rfind_last[OF r(2)] by simp
  show ?thesis
  proof (cases b)
    case Nil
    with r rf assms show ?thesis
      by (simp add: py_find_notin py_slice_def Let_def)
  next
    case (Cons x xs)
    with r rf assms show ?thesis
      by (simp add: py_find_notin py_slice_def Let_def)
  qed
qed

lemma texto_sin_llave_cerrada:
  assumes "CHR ''}'' \<notin> set r"
  shows "py_slice r (py_find CHR ''{'' r) (py_rfind CHR ''}'' r + 1) = []"
  using assms by (simp add: py_rfind_notin py_slice_def Let_def)



end
